theory Spec2Isabelle
  imports Main "HOL-Library.Word"
begin

section \<open>Universe diffs (unidiff.c)\<close>

text \<open>
  A shallow embedding of the universe-diff engine: the stack of active diffs, the patch
  engine that reads a diff definition and applies its hunks, the removal of a diff and
  the persistence of the active names.

  A \<^verbatim>\<open>char *\<close> is a \<open>string option\<close> (\<open>None\<close> is NULL). Passing NULL to
  \<^verbatim>\<open>strcmp\<close>, \<^verbatim>\<open>strdup\<close> or \<^verbatim>\<open>atoi\<close>, or following a NULL pointer, ends the process:
  that is the value \<open>Inl NullDeref\<close> of the result. \<open>Inl WildPointer\<close> is the same end after
  following a pointer that was read from the wrong member of a union.
\<close>

datatype fault = NullDeref | WildPointer

subsection \<open>C library\<close>

text \<open>\<^verbatim>\<open>strcmp\<close>: 0 exactly when the strings are equal. The callers only test the result
  against 0, so every other result is 1 here.\<close>

definition strcmp :: "string option \<Rightarrow> string option \<Rightarrow> fault + int" where
  "strcmp a b =
     (case a of None \<Rightarrow> Inl NullDeref
      | Some x \<Rightarrow> (case b of None \<Rightarrow> Inl NullDeref
                   | Some y \<Rightarrow> Inr (if x = y then 0 else 1)))"

definition strdup :: "string option \<Rightarrow> fault + string option" where
  "strdup a = (case a of None \<Rightarrow> Inl NullDeref | Some x \<Rightarrow> Inr (Some x))"

definition isspace :: "char \<Rightarrow> bool" where
  "isspace c = ((of_char c :: nat) = 32 \<or> (9 \<le> (of_char c :: nat) \<and> (of_char c :: nat) \<le> 13))"

definition isdigit :: "char \<Rightarrow> bool" where
  "isdigit c = (48 \<le> (of_char c :: nat) \<and> (of_char c :: nat) \<le> 57)"

fun atoi_digits :: "string \<Rightarrow> int \<Rightarrow> int" where
  "atoi_digits [] acc = acc"
| "atoi_digits (c # cs) acc =
     (if isdigit c then atoi_digits cs (acc * 10 + (int (of_char c) - 48)) else acc)"

text \<open>The number \<^verbatim>\<open>atoi\<close> reads: leading white space, an optional sign, then the decimal
  digits up to the first other character.\<close>

definition atoi_val :: "string \<Rightarrow> int" where
  "atoi_val s =
     (case dropWhile isspace s of
        [] \<Rightarrow> 0
      | c # cs \<Rightarrow>
          if c = CHR ''-'' then - atoi_digits cs 0
          else if c = CHR ''+'' then atoi_digits cs 0
          else atoi_digits (c # cs) 0)"

text \<open>\<^verbatim>\<open>atoi\<close> returns an \<^verbatim>\<open>int\<close>, a word of 32 bits read as two's complement (\<open>sint\<close>).
  For a number in the range of \<^verbatim>\<open>int\<close> it is that number. Outside that range the C
  standard leaves the result open; the value here is the one of the C library on a
  platform with a \<^verbatim>\<open>long\<close> of 64 bits, where \<^verbatim>\<open>atoi\<close> is \<^verbatim>\<open>(int) strtol(s, NULL, 10)\<close>:
  \<^verbatim>\<open>strtol\<close> stops at the ends of the range of \<^verbatim>\<open>long\<close>, and the conversion to \<^verbatim>\<open>int\<close> keeps
  the low 32 bits.\<close>

definition strtol_sat :: "int \<Rightarrow> int" where
  "strtol_sat v = max (- 9223372036854775808) (min 9223372036854775807 v)"

definition atoi_str :: "string \<Rightarrow> 32 word" where
  "atoi_str s = word_of_int (strtol_sat (atoi_val s))"

definition atoi :: "string option \<Rightarrow> fault + 32 word" where
  "atoi a = (case a of None \<Rightarrow> Inl NullDeref | Some s \<Rightarrow> Inr (atoi_str s))"

subsection \<open>XML nodes\<close>

text \<open>
  Modelled from the spec: the node and attribute reading interface of the XML library
  (xml.h and libxml2 are not among the sources). A node is an element with its
  attributes and children, or a text node. \<open>xml_isNode\<close> holds of an element of the given
  name and of nothing else (also not of the NULL that ends a sibling list, so a loop over
  siblings is a recursion over the list of children); \<open>xmlr_attr\<close> reads an attribute,
  NULL when it is missing; \<open>xml_get\<close> is \<^verbatim>\<open>n->children->content\<close>, the text of the first
  child: a fault without children, NULL when the first child is an element.
\<close>

datatype xmlNode = Elem string "(string \<times> string) list" "xmlNode list" | Text string

text \<open>Modelled from the spec: \<^verbatim>\<open>node->name\<close> of libxml2; a text node is named \<^verbatim>\<open>text\<close>.\<close>

fun node_name :: "xmlNode \<Rightarrow> string" where
  "node_name (Elem nm atts cs) = nm"
| "node_name (Text t) = ''text''"

text \<open>Modelled from the spec: \<^verbatim>\<open>node->xmlChildrenNode\<close>, the list of children.\<close>

fun xmlChildrenNode :: "xmlNode \<Rightarrow> xmlNode list" where
  "xmlChildrenNode (Elem nm atts cs) = cs"
| "xmlChildrenNode (Text t) = []"

text \<open>Modelled from the spec: the macro \<^verbatim>\<open>xml_isNode\<close> of xml.h.\<close>

fun xml_isNode :: "xmlNode \<Rightarrow> string \<Rightarrow> bool" where
  "xml_isNode (Elem nm atts cs) s = (nm = s)"
| "xml_isNode (Text t) s = False"

text \<open>Modelled from the spec: the macro \<^verbatim>\<open>xmlr_attr\<close> of xml.h.\<close>

fun xmlr_attr :: "xmlNode \<Rightarrow> string \<Rightarrow> string option" where
  "xmlr_attr (Elem nm atts cs) s = map_of atts s"
| "xmlr_attr (Text t) s = None"

text \<open>Modelled from the spec: the macro \<^verbatim>\<open>xml_get\<close> of xml.h.\<close>

definition xml_get :: "xmlNode \<Rightarrow> fault + string option" where
  "xml_get n =
     (case xmlChildrenNode n of
        [] \<Rightarrow> Inl NullDeref
      | c # cs \<Rightarrow> (case c of Text t \<Rightarrow> Inr (Some t) | Elem nm atts ds \<Rightarrow> Inr None))"


subsection \<open>Hunks, diffs and the diff stack\<close>

datatype UniHunkTargetType = HUNK_TARGET_NONE | HUNK_TARGET_SYSTEM

record UniHunkTarget =
  target_type :: UniHunkTargetType
  target_name :: "string option"

datatype UniHunkType =
    HUNK_TYPE_NONE
  | HUNK_TYPE_PLANET_ADD
  | HUNK_TYPE_PLANET_REMOVE
  | HUNK_TYPE_FLEET_ADD
  | HUNK_TYPE_FLEET_REMOVE

text \<open>\<^verbatim>\<open>SystemFleet\<close> (space.h): a pointer to the fleet definition, here the name of the
  fleet it points to or NULL, and the chance of the fleet appearing, an \<^verbatim>\<open>int\<close>.\<close>

record SystemFleet =
  fleet :: "string option"
  chance :: "32 word"

text \<open>The union \<^verbatim>\<open>u\<close> of a hunk holds the member that was written last.\<close>

datatype hunk_u = U_name "string option" | U_fleet SystemFleet

record UniHunk =
  target :: UniHunkTarget
  hunk_type :: UniHunkType
  hunk_u :: hunk_u

text \<open>The arrays \<^verbatim>\<open>applied\<close> and \<^verbatim>\<open>failed\<close> are lists, \<^verbatim>\<open>napplied\<close> and \<^verbatim>\<open>nfailed\<close> their
  lengths. The counts of allocated slots (\<^verbatim>\<open>mapplied\<close>, \<^verbatim>\<open>mfailed\<close>, \<^verbatim>\<open>diff_mstack\<close>) only
  steer \<^verbatim>\<open>realloc\<close> and have no counterpart.\<close>

record UniDiff =
  name :: "string option"
  applied :: "UniHunk list"
  failed :: "UniHunk list"

datatype log_arg = ArgS "string option" | ArgD int | ArgU hunk_u

text \<open>Modelled from the spec: the logging macros of log.h append a message (the format
  string and its arguments) to the log and return.\<close>

datatype log_msg =
    ERR string "log_arg list"
  | WARN string "log_arg list"
  | DEBUG string "log_arg list"

text \<open>The state of the process: the diff stack (\<^verbatim>\<open>diff_nstack\<close> is its length), the
  world the hunks change, the log, and how many file buffers (\<^verbatim>\<open>pack_readfile\<close>) and
  parsed documents (\<^verbatim>\<open>xmlParseMemory\<close>) are allocated and not yet released.\<close>

record 'w state =
  diff_stack :: "UniDiff list"
  world :: 'w
  msgs :: "log_msg list"
  bufs_held :: nat
  docs_held :: nat

definition diff_nstack :: "'w state \<Rightarrow> nat" where
  "diff_nstack s = length (diff_stack s)"

text \<open>
  What the engine is given: the world-mutation interface of space.c (a \<^verbatim>\<open>StarSystem *\<close>
  is a \<open>'s option\<close>; a mutator gets the system, the union of the hunk as it is stored and
  the world, and returns its status and the new world), \<^verbatim>\<open>fleet_get\<close>, the first node of
  the parsed definitions document \<^verbatim>\<open>dat/unidiff.xml\<close> (the file is taken to be there and
  to parse), and the indeterminate contents of the local variable \<^verbatim>\<open>hunk\<close> of \<open>diff_patch\<close>
  before its first assignment. A type field
  that holds no value of the enumeration takes the \<^verbatim>\<open>default\<close> branch of every \<^verbatim>\<open>switch\<close>, as
  \<open>HUNK_TYPE_NONE\<close> does, and is that value here.
\<close>

record ('w, 's) env =
  system_get :: "'w \<Rightarrow> string option \<Rightarrow> 's option"
  system_addPlanet :: "'s option \<Rightarrow> hunk_u \<Rightarrow> 'w \<Rightarrow> int \<times> 'w"
  system_rmPlanet :: "'s option \<Rightarrow> hunk_u \<Rightarrow> 'w \<Rightarrow> int \<times> 'w"
  system_addFleet :: "'s option \<Rightarrow> hunk_u \<Rightarrow> 'w \<Rightarrow> int \<times> 'w"
  system_rmFleet :: "'s option \<Rightarrow> hunk_u \<Rightarrow> 'w \<Rightarrow> int \<times> 'w"
  fleet_get :: "string option \<Rightarrow> string option"
  unidiff_doc :: xmlNode
  stack_hunk :: UniHunk

fun hunk_type_int :: "UniHunkType \<Rightarrow> int" where
  "hunk_type_int HUNK_TYPE_NONE = 0"
| "hunk_type_int HUNK_TYPE_PLANET_ADD = 1"
| "hunk_type_int HUNK_TYPE_PLANET_REMOVE = 2"
| "hunk_type_int HUNK_TYPE_FLEET_ADD = 3"
| "hunk_type_int HUNK_TYPE_FLEET_REMOVE = 4"

subsection \<open>Looking a diff up\<close>

text \<open>\<open>diff_get\<close>: the index of the first diff of that name (the pointer
  \<^verbatim>\<open>&diff_stack[i]\<close>), or \<open>None\<close> for NULL.\<close>

fun diff_get_loop :: "UniDiff list \<Rightarrow> string option \<Rightarrow> nat \<Rightarrow> fault + nat option" where
  "diff_get_loop [] nm i = Inr None"
| "diff_get_loop (d # ds) nm i =
     (case strcmp (name d) nm of
        Inl e \<Rightarrow> Inl e
      | Inr c \<Rightarrow> if c = 0 then Inr (Some i) else diff_get_loop ds nm (Suc i))"

definition diff_get :: "'w state \<Rightarrow> string option \<Rightarrow> fault + nat option" where
  "diff_get s nm = diff_get_loop (diff_stack s) nm 0"

definition diff_isApplied :: "'w state \<Rightarrow> string option \<Rightarrow> fault + int" where
  "diff_isApplied s nm =
     (case diff_get s nm of
        Inl e \<Rightarrow> Inl e
      | Inr p \<Rightarrow> if p \<noteq> None then Inr 1 else Inr 0)"

subsection \<open>Applying one hunk\<close>

definition diff_patchHunk :: "('w, 's) env \<Rightarrow> UniHunk \<Rightarrow> 'w state \<Rightarrow> int \<times> 'w state" where
  "diff_patchHunk E hunk s =
     (case hunk_type hunk of
        HUNK_TYPE_PLANET_ADD \<Rightarrow>
          (case system_addPlanet E (system_get E (world s) (target_name (target hunk)))
                  (hunk_u hunk) (world s) of
             (r, w) \<Rightarrow> (r, s\<lparr>world := w\<rparr>))
      | HUNK_TYPE_PLANET_REMOVE \<Rightarrow>
          (case system_rmPlanet E (system_get E (world s) (target_name (target hunk)))
                  (hunk_u hunk) (world s) of
             (r, w) \<Rightarrow> (r, s\<lparr>world := w\<rparr>))
      | HUNK_TYPE_FLEET_ADD \<Rightarrow>
          (case system_addFleet E (system_get E (world s) (target_name (target hunk)))
                  (hunk_u hunk) (world s) of
             (r, w) \<Rightarrow> (r, s\<lparr>world := w\<rparr>))
      | HUNK_TYPE_FLEET_REMOVE \<Rightarrow>
          (case system_rmFleet E (system_get E (world s) (target_name (target hunk)))
                  (hunk_u hunk) (world s) of
             (r, w) \<Rightarrow> (r, s\<lparr>world := w\<rparr>))
      | HUNK_TYPE_NONE \<Rightarrow>
          (- 1, s\<lparr>msgs := msgs s @
             [WARN ''Unknown hunk type %d.'' [ArgD (hunk_type_int (hunk_type hunk))]]\<rparr>))"

text \<open>\<open>diff_hunkFailed\<close> and \<open>diff_hunkSuccess\<close>: the diff is a pointer into the stack,
  here its index; \<open>None\<close> is the NULL the functions guard against.\<close>

definition diff_hunkFailed :: "nat option \<Rightarrow> UniHunk \<Rightarrow> 'w state \<Rightarrow> 'w state" where
  "diff_hunkFailed diff hunk s =
     (case diff of
        None \<Rightarrow> s
      | Some i \<Rightarrow>
          s\<lparr>diff_stack := (diff_stack s)
               [i := (diff_stack s ! i)\<lparr>failed := failed (diff_stack s ! i) @ [hunk]\<rparr>]\<rparr>)"

definition diff_hunkSuccess :: "nat option \<Rightarrow> UniHunk \<Rightarrow> 'w state \<Rightarrow> 'w state" where
  "diff_hunkSuccess diff hunk s =
     (case diff of
        None \<Rightarrow> s
      | Some i \<Rightarrow>
          s\<lparr>diff_stack := (diff_stack s)
               [i := (diff_stack s ! i)\<lparr>applied := applied (diff_stack s ! i) @ [hunk]\<rparr>]\<rparr>)"

subsection \<open>The patch engine\<close>

text \<open>The end of both element branches of \<open>diff_patch\<close>: apply the hunk and file it
  under \<open>failed\<close> when the status is negative, under \<open>applied\<close> otherwise.\<close>

definition diff_patch_file :: "('w, 's) env \<Rightarrow> nat option \<Rightarrow> UniHunk \<Rightarrow> 'w state \<Rightarrow> 'w state" where
  "diff_patch_file E diff hunk s =
     (case diff_patchHunk E hunk s of
        (r, s') \<Rightarrow> if r < 0 then diff_hunkFailed diff hunk s' else diff_hunkSuccess diff hunk s')"

text \<open>The type of a hunk from the text of its element: set for \<^verbatim>\<open>add\<close> and \<^verbatim>\<open>remove\<close>,
  left as it is for any other text.\<close>

definition diff_patch_type ::
  "UniHunkType \<Rightarrow> UniHunkType \<Rightarrow> string option \<Rightarrow> UniHunk \<Rightarrow> fault + UniHunk" where
  "diff_patch_type t_add t_remove buf hunk =
     (case strcmp buf (Some ''add'') of
        Inl e \<Rightarrow> Inl e
      | Inr c \<Rightarrow>
          if c = 0 then Inr (hunk\<lparr>hunk_type := t_add\<rparr>)
          else (case strcmp buf (Some ''remove'') of
                  Inl e \<Rightarrow> Inl e
                | Inr c' \<Rightarrow> if c' = 0 then Inr (hunk\<lparr>hunk_type := t_remove\<rparr>) else Inr hunk))"

text \<open>The hunk an element \<open>cur\<close> under a system node gives, written into the local
  \<open>hunk\<close>: the first half of both element branches of \<open>diff_patch\<close>. \<open>Inr None\<close> for a
  node that is neither a planet nor a fleet element.\<close>

definition diff_patch_hunk ::
  "('w, 's) env \<Rightarrow> UniHunk \<Rightarrow> xmlNode \<Rightarrow> UniHunk \<Rightarrow> fault + UniHunk option" where
  "diff_patch_hunk E base cur hunk =
     (if xml_isNode cur ''planet'' then
        (case strdup (target_name (target base)) of
           Inl e \<Rightarrow> Inl e
         | Inr tn \<Rightarrow>
             (case xml_get cur of
                Inl e \<Rightarrow> Inl e
              | Inr buf \<Rightarrow>
                  (case diff_patch_type HUNK_TYPE_PLANET_ADD HUNK_TYPE_PLANET_REMOVE buf
                          (hunk\<lparr>target := \<lparr>target_type = target_type (target base),
                                             target_name = tn\<rparr>,
                                 hunk_u := U_name (xmlr_attr cur ''name'')\<rparr>) of
                     Inl e \<Rightarrow> Inl e
                   | Inr hunk' \<Rightarrow> Inr (Some hunk'))))
      else if xml_isNode cur ''fleet'' then
        (case strdup (target_name (target base)) of
           Inl e \<Rightarrow> Inl e
         | Inr tn \<Rightarrow>
             (case atoi (xmlr_attr cur ''chance'') of
                Inl e \<Rightarrow> Inl e
              | Inr ch \<Rightarrow>
                  (case xml_get cur of
                     Inl e \<Rightarrow> Inl e
                   | Inr buf \<Rightarrow>
                       (case diff_patch_type HUNK_TYPE_FLEET_ADD HUNK_TYPE_FLEET_REMOVE buf
                               (hunk\<lparr>target := \<lparr>target_type = target_type (target base),
                                                  target_name = tn\<rparr>,
                                      hunk_u := U_fleet
                                        \<lparr>fleet = fleet_get E (xmlr_attr cur ''name''),
                                         chance = ch\<rparr>\<rparr>) of
                          Inl e \<Rightarrow> Inl e
                        | Inr hunk' \<Rightarrow> Inr (Some hunk')))))
      else Inr None)"

text \<open>One child \<open>cur\<close> of a system node: the body of the inner loop. The local \<open>hunk\<close> is
  carried from one element to the next; a hunk that was built is applied and filed at
  once.\<close>

definition diff_patch_cur ::
  "('w, 's) env \<Rightarrow> nat option \<Rightarrow> UniHunk \<Rightarrow> xmlNode \<Rightarrow> UniHunk \<times> 'w state
     \<Rightarrow> fault + (UniHunk \<times> 'w state)" where
  "diff_patch_cur E diff base cur hs =
     (case hs of (hunk, s) \<Rightarrow>
        (case diff_patch_hunk E base cur hunk of
           Inl e \<Rightarrow> Inl e
         | Inr None \<Rightarrow> Inr (hunk, s)
         | Inr (Some hunk') \<Rightarrow> Inr (hunk', diff_patch_file E diff hunk' s)))"

fun diff_patch_curs ::
  "('w, 's) env \<Rightarrow> nat option \<Rightarrow> UniHunk \<Rightarrow> xmlNode list \<Rightarrow> UniHunk \<times> 'w state
     \<Rightarrow> fault + (UniHunk \<times> 'w state)" where
  "diff_patch_curs E diff base [] hs = Inr hs"
| "diff_patch_curs E diff base (cur # rest) hs =
     (case diff_patch_cur E diff base cur hs of
        Inl e \<Rightarrow> Inl e
      | Inr hs' \<Rightarrow> diff_patch_curs E diff base rest hs')"

text \<open>\<^verbatim>\<open>memset(&base, 0, sizeof(UniHunk_t))\<close>: every field zero.\<close>

definition UniHunk_zero :: UniHunk where
  "UniHunk_zero =
     \<lparr>target = \<lparr>target_type = HUNK_TARGET_NONE, target_name = None\<rparr>,
      hunk_type = HUNK_TYPE_NONE, hunk_u = U_name None\<rparr>"

definition UniDiff_zero :: UniDiff where
  "UniDiff_zero = \<lparr>name = None, applied = [], failed = []\<rparr>"

text \<open>The target of the hunks under a system node: \<open>base\<close> after the \<^verbatim>\<open>memset\<close> and the
  two assignments.\<close>

definition diff_patch_base :: "xmlNode \<Rightarrow> UniHunk" where
  "diff_patch_base node =
     UniHunk_zero\<lparr>target := \<lparr>target_type = HUNK_TARGET_SYSTEM,
                                target_name = xmlr_attr node ''name''\<rparr>\<rparr>"

text \<open>One child \<open>node\<close> of the unidiff element: the body of the outer loop.\<close>

definition diff_patch_node ::
  "('w, 's) env \<Rightarrow> nat \<Rightarrow> xmlNode \<Rightarrow> UniHunk \<times> 'w state \<Rightarrow> fault + (UniHunk \<times> 'w state)" where
  "diff_patch_node E diff node hs =
     (case hs of (hunk, s) \<Rightarrow>
        if xml_isNode node ''system'' then
          (let base = diff_patch_base node;
               s1 = (if target_name (target base) = None
                     then s\<lparr>msgs := msgs s @
                            [WARN ''Unidiff %s has a system node without a name tag''
                               [ArgS (name (diff_stack s ! diff))]]\<rparr>
                     else s)
           in diff_patch_curs E (Some diff) base (xmlChildrenNode node) (hunk, s1))
        else Inr (hunk, s))"

fun diff_patch_nodes ::
  "('w, 's) env \<Rightarrow> nat \<Rightarrow> xmlNode list \<Rightarrow> UniHunk \<times> 'w state \<Rightarrow> fault + (UniHunk \<times> 'w state)" where
  "diff_patch_nodes E diff [] hs = Inr hs"
| "diff_patch_nodes E diff (node # rest) hs =
     (case diff_patch_node E diff node hs of
        Inl e \<Rightarrow> Inl e
      | Inr hs' \<Rightarrow> diff_patch_nodes E diff rest hs')"

text \<open>\<open>diff_newDiff\<close>: one more slot at the end of the stack and its index. The slot is
  cleared by the caller before it is read, so it is the zero diff here. Both branches of
  the C function (first allocation, later growth) leave a stack one longer.\<close>

definition diff_newDiff :: "'w state \<Rightarrow> nat \<times> 'w state" where
  "diff_newDiff s = (length (diff_stack s), s\<lparr>diff_stack := diff_stack s @ [UniDiff_zero]\<rparr>)"

text \<open>\<^verbatim>\<open>fail->u.fleet.fleet->name\<close> and \<^verbatim>\<open>fail->u.fleet.chance\<close>, the arguments of the
  debugging lines for a hunk of a fleet type: the fleet pointer is followed. It is NULL
  when \<open>fleet_get\<close> found no fleet; when the union holds a planet name (the type was
  carried over from a fleet hunk), the pointer read from it is the pointer to the name,
  NULL with the name, and no pointer to a fleet otherwise.\<close>

definition diff_patch_debug_fleet :: "hunk_u \<Rightarrow> fault + log_arg list" where
  "diff_patch_debug_fleet pl =
     (case pl of
        U_fleet f \<Rightarrow>
          (case fleet f of
             None \<Rightarrow> Inl NullDeref
           | Some nm \<Rightarrow> Inr [ArgS (Some nm), ArgD (sint (chance f))])
      | U_name p \<Rightarrow> (case p of None \<Rightarrow> Inl NullDeref | Some nm \<Rightarrow> Inl WildPointer))"

text \<open>\<^verbatim>\<open>fail->u.name\<close>, the argument of the debugging lines for a hunk of a planet type,
  printed as a string. When the union holds a fleet, the bytes printed are those the
  fleet pointer points to; they are not modelled and the union is logged as it is.\<close>

definition diff_patch_debug_name :: "hunk_u \<Rightarrow> log_arg" where
  "diff_patch_debug_name pl = (case pl of U_name p \<Rightarrow> ArgS p | U_fleet f \<Rightarrow> ArgU pl)"

text \<open>The debugging output at the end of \<open>diff_patch\<close>: one line for the number of
  failed hunks, one per failed hunk. The macro \<^verbatim>\<open>DEBUG\<close> is the one of a build with
  debugging output: it prints, and so evaluates its arguments.\<close>

definition diff_patch_debug_hunk :: "UniHunk \<Rightarrow> fault + log_msg" where
  "diff_patch_debug_hunk fail =
     (case hunk_type fail of
        HUNK_TYPE_PLANET_ADD \<Rightarrow>
          Inr (DEBUG ''   [%s] planet add: %s''
                 [ArgS (target_name (target fail)), diff_patch_debug_name (hunk_u fail)])
      | HUNK_TYPE_PLANET_REMOVE \<Rightarrow>
          Inr (DEBUG ''   [%s] planet remove: %s''
                 [ArgS (target_name (target fail)), diff_patch_debug_name (hunk_u fail)])
      | HUNK_TYPE_FLEET_ADD \<Rightarrow>
          (case diff_patch_debug_fleet (hunk_u fail) of
             Inl e \<Rightarrow> Inl e
           | Inr args \<Rightarrow>
               Inr (DEBUG ''   [%s] fleet add: %s (%d%% chance)''
                      (ArgS (target_name (target fail)) # args)))
      | HUNK_TYPE_FLEET_REMOVE \<Rightarrow>
          (case diff_patch_debug_fleet (hunk_u fail) of
             Inl e \<Rightarrow> Inl e
           | Inr args \<Rightarrow>
               Inr (DEBUG ''   [%s] fleet remove: %s (%d%% chance)''
                      (ArgS (target_name (target fail)) # args)))
      | HUNK_TYPE_NONE \<Rightarrow>
          Inr (DEBUG ''   unknown hunk %d'' [ArgD (hunk_type_int (hunk_type fail))]))"

fun diff_patch_debug_hunks :: "UniHunk list \<Rightarrow> fault + log_msg list" where
  "diff_patch_debug_hunks [] = Inr []"
| "diff_patch_debug_hunks (fail # rest) =
     (case diff_patch_debug_hunk fail of
        Inl e \<Rightarrow> Inl e
      | Inr m \<Rightarrow>
          (case diff_patch_debug_hunks rest of Inl e \<Rightarrow> Inl e | Inr ms \<Rightarrow> Inr (m # ms)))"

definition diff_patch_debug :: "UniDiff \<Rightarrow> fault + log_msg list" where
  "diff_patch_debug d =
     (if length (failed d) > 0
      then (case diff_patch_debug_hunks (failed d) of
              Inl e \<Rightarrow> Inl e
            | Inr ms \<Rightarrow>
                Inr (DEBUG ''Unidiff %s failed %d hunks.''
                       [ArgS (name d), ArgD (int (length (failed d)))] # ms))
      else Inr [])"

definition diff_patch :: "('w, 's) env \<Rightarrow> xmlNode \<Rightarrow> 'w state \<Rightarrow> fault + (int \<times> 'w state)" where
  "diff_patch E parent s =
     (case diff_newDiff s of (diff, s1) \<Rightarrow>
        (let s2 = s1\<lparr>diff_stack := (diff_stack s1)
                      [diff := UniDiff_zero\<lparr>name := xmlr_attr parent ''name''\<rparr>]\<rparr>
         in case diff_patch_nodes E diff (xmlChildrenNode parent) (stack_hunk E, s2) of
              Inl e \<Rightarrow> Inl e
            | Inr (hunk, s3) \<Rightarrow>
                (case diff_patch_debug (diff_stack s3 ! diff) of
                   Inl e \<Rightarrow> Inl e
                 | Inr ms \<Rightarrow> Inr (0, s3\<lparr>msgs := msgs s3 @ ms\<rparr>))))"

subsection \<open>Applying a diff by name\<close>

text \<open>The search loop of \<open>diff_apply\<close> over the children of the root, with what follows
  the loop when no element matched.\<close>

fun diff_apply_loop ::
  "('w, 's) env \<Rightarrow> string option \<Rightarrow> xmlNode list \<Rightarrow> 'w state \<Rightarrow> fault + (int \<times> 'w state)" where
  "diff_apply_loop E nm [] s =
     Inr (- 1, s\<lparr>docs_held := docs_held s - 1, bufs_held := bufs_held s - 1,
                 msgs := msgs s @ [WARN ''UniDiff %s not found in dat/unidiff.xml.'' [ArgS nm]]\<rparr>)"
| "diff_apply_loop E nm (node # rest) s =
     (if xml_isNode node ''unidiff'' then
        (case strcmp (xmlr_attr node ''name'') nm of
           Inl e \<Rightarrow> Inl e
         | Inr c \<Rightarrow>
             if c = 0 then
               (case diff_patch E node s of
                  Inl e \<Rightarrow> Inl e
                | Inr (r, s') \<Rightarrow>
                    Inr (0, s'\<lparr>docs_held := docs_held s' - 1, bufs_held := bufs_held s' - 1\<rparr>))
             else diff_apply_loop E nm rest s)
      else diff_apply_loop E nm rest s)"

definition diff_apply :: "('w, 's) env \<Rightarrow> string option \<Rightarrow> 'w state \<Rightarrow> fault + (int \<times> 'w state)" where
  "diff_apply E nm s =
     (case diff_isApplied s nm of
        Inl e \<Rightarrow> Inl e
      | Inr a \<Rightarrow>
          if a \<noteq> 0 then Inr (0, s)
          else
            (let s1 = s\<lparr>bufs_held := bufs_held s + 1\<rparr>;
                 s2 = s1\<lparr>docs_held := docs_held s1 + 1\<rparr>;
                 node = unidiff_doc E
             in if node_name node \<noteq> ''unidiffs'' then
                  Inr (0, s2\<lparr>msgs := msgs s2 @
                         [ERR ''Malformed unidiff file: missing root element unidiffs'' []]\<rparr>)
                else if xmlChildrenNode node = [] then
                  Inr (0, s2\<lparr>msgs := msgs s2 @
                         [ERR ''Malformed unidiff file: does not contain elements'' []]\<rparr>)
                else diff_apply_loop E nm (xmlChildrenNode node) s2))"

subsection \<open>Removing diffs\<close>

text \<open>The loop of \<open>diff_removeDiff\<close> over the applied hunks, from index 0 upwards: the
  copy of the hunk gets the opposite type and is applied, its status ignored; a hunk of
  any other type is skipped with a warning.\<close>

fun diff_removeDiff_loop :: "('w, 's) env \<Rightarrow> UniHunk list \<Rightarrow> 'w state \<Rightarrow> 'w state" where
  "diff_removeDiff_loop E [] s = s"
| "diff_removeDiff_loop E (h # rest) s =
     (case hunk_type h of
        HUNK_TYPE_PLANET_ADD \<Rightarrow>
          diff_removeDiff_loop E rest
            (snd (diff_patchHunk E (h\<lparr>hunk_type := HUNK_TYPE_PLANET_REMOVE\<rparr>) s))
      | HUNK_TYPE_PLANET_REMOVE \<Rightarrow>
          diff_removeDiff_loop E rest
            (snd (diff_patchHunk E (h\<lparr>hunk_type := HUNK_TYPE_PLANET_ADD\<rparr>) s))
      | HUNK_TYPE_FLEET_ADD \<Rightarrow>
          diff_removeDiff_loop E rest
            (snd (diff_patchHunk E (h\<lparr>hunk_type := HUNK_TYPE_FLEET_REMOVE\<rparr>) s))
      | HUNK_TYPE_FLEET_REMOVE \<Rightarrow>
          diff_removeDiff_loop E rest
            (snd (diff_patchHunk E (h\<lparr>hunk_type := HUNK_TYPE_FLEET_ADD\<rparr>) s))
      | HUNK_TYPE_NONE \<Rightarrow>
          diff_removeDiff_loop E rest
            (s\<lparr>msgs := msgs s @
               [WARN ''Unknown Hunk type %d.'' [ArgD (hunk_type_int (hunk_type h))]]\<rparr>))"

text \<open>\<open>diff_cleanup\<close> frees what the diff owns and clears it; the strings and arrays
  it frees are not tracked, the cleared slot is.\<close>

definition diff_cleanup :: "nat \<Rightarrow> 'w state \<Rightarrow> 'w state" where
  "diff_cleanup diff s = s\<lparr>diff_stack := (diff_stack s)[diff := UniDiff_zero]\<rparr>"

text \<open>\<open>diff_removeDiff\<close> of the diff at index \<open>diff\<close>; the \<^verbatim>\<open>memmove\<close> closes the gap.\<close>

definition diff_removeDiff :: "('w, 's) env \<Rightarrow> nat \<Rightarrow> 'w state \<Rightarrow> int \<times> 'w state" where
  "diff_removeDiff E diff s =
     (let s1 = diff_removeDiff_loop E (applied (diff_stack s ! diff)) s;
          s2 = diff_cleanup diff s1
      in (0, s2\<lparr>diff_stack := take diff (diff_stack s2) @ drop (Suc diff) (diff_stack s2)\<rparr>))"

definition diff_remove :: "('w, 's) env \<Rightarrow> string option \<Rightarrow> 'w state \<Rightarrow> fault + 'w state" where
  "diff_remove E nm s =
     (case diff_get s nm of
        Inl e \<Rightarrow> Inl e
      | Inr None \<Rightarrow> Inr s
      | Inr (Some diff) \<Rightarrow> Inr (snd (diff_removeDiff E diff s)))"

text \<open>\<open>diff_clear\<close> removes the last diff while there is one. It ends because
  \<open>diff_removeDiff\<close> leaves the stack one shorter.\<close>

lemma diff_patchHunk_stack [simp]: "diff_stack (snd (diff_patchHunk E h s)) = diff_stack s"
  by (simp add: diff_patchHunk_def split: UniHunkType.split prod.split)

lemma diff_removeDiff_loop_stack [simp]:
  "diff_stack (diff_removeDiff_loop E hs s) = diff_stack s"
  by (induction hs arbitrary: s) (simp_all split: UniHunkType.split)





subsection \<open>Saving and loading the active diffs\<close>






subsection \<open>A world of systems\<close>

text \<open>
  Modelled from the spec: the world-mutation interface (space.c is not among the
  sources). A system has a set of planets and a set of fleets (a fleet definition with
  its chance). A mutator fails (status -1, the world as it was) when the target or the
  item could not be found (the system does not resolve, the planet name or the fleet
  pointer is NULL, the payload is not of the member the mutator reads) and when the item
  to remove is already absent. Nothing else fails: adding an item that the system
  already has is accepted, and leaves the set as it is.
\<close>

record StarSystem =
  planets :: "string set"
  fleets :: "(string \<times> 32 word) set"

type_synonym universe = "string \<Rightarrow> StarSystem option"

text \<open>Modelled from the spec: \<^verbatim>\<open>system_get\<close> of space.c; the system of that name, NULL
  when there is none.\<close>

definition univ_system_get :: "universe \<Rightarrow> string option \<Rightarrow> string option" where
  "univ_system_get w nm =
     (case nm of None \<Rightarrow> None | Some n \<Rightarrow> (case w n of None \<Rightarrow> None | Some S \<Rightarrow> Some n))"

text \<open>Modelled from the spec: \<^verbatim>\<open>system_addPlanet\<close> of space.c.\<close>

definition univ_addPlanet :: "string option \<Rightarrow> hunk_u \<Rightarrow> universe \<Rightarrow> int \<times> universe" where
  "univ_addPlanet sys pl w =
     (case sys of None \<Rightarrow> (- 1, w) | Some n \<Rightarrow>
        (case w n of None \<Rightarrow> (- 1, w) | Some S \<Rightarrow>
           (case pl of
              U_name (Some p) \<Rightarrow> (0, w(n \<mapsto> S\<lparr>planets := insert p (planets S)\<rparr>))
            | U_name None \<Rightarrow> (- 1, w)
            | U_fleet f \<Rightarrow> (- 1, w))))"

text \<open>Modelled from the spec: \<^verbatim>\<open>system_rmPlanet\<close> of space.c.\<close>

definition univ_rmPlanet :: "string option \<Rightarrow> hunk_u \<Rightarrow> universe \<Rightarrow> int \<times> universe" where
  "univ_rmPlanet sys pl w =
     (case sys of None \<Rightarrow> (- 1, w) | Some n \<Rightarrow>
        (case w n of None \<Rightarrow> (- 1, w) | Some S \<Rightarrow>
           (case pl of
              U_name (Some p) \<Rightarrow>
                if p \<in> planets S then (0, w(n \<mapsto> S\<lparr>planets := planets S - {p}\<rparr>))
                else (- 1, w)
            | U_name None \<Rightarrow> (- 1, w)
            | U_fleet f \<Rightarrow> (- 1, w))))"

text \<open>Modelled from the spec: \<^verbatim>\<open>system_addFleet\<close> of space.c.\<close>

definition univ_addFleet :: "string option \<Rightarrow> hunk_u \<Rightarrow> universe \<Rightarrow> int \<times> universe" where
  "univ_addFleet sys pl w =
     (case sys of None \<Rightarrow> (- 1, w) | Some n \<Rightarrow>
        (case w n of None \<Rightarrow> (- 1, w) | Some S \<Rightarrow>
           (case pl of
              U_fleet f \<Rightarrow>
                (case fleet f of
                   None \<Rightarrow> (- 1, w)
                 | Some fl \<Rightarrow>
                     (0, w(n \<mapsto> S\<lparr>fleets := insert (fl, chance f) (fleets S)\<rparr>)))
            | U_name p \<Rightarrow> (- 1, w))))"

text \<open>Modelled from the spec: \<^verbatim>\<open>system_rmFleet\<close> of space.c.\<close>

definition univ_rmFleet :: "string option \<Rightarrow> hunk_u \<Rightarrow> universe \<Rightarrow> int \<times> universe" where
  "univ_rmFleet sys pl w =
     (case sys of None \<Rightarrow> (- 1, w) | Some n \<Rightarrow>
        (case w n of None \<Rightarrow> (- 1, w) | Some S \<Rightarrow>
           (case pl of
              U_fleet f \<Rightarrow>
                (case fleet f of
                   None \<Rightarrow> (- 1, w)
                 | Some fl \<Rightarrow>
                     if (fl, chance f) \<in> fleets S
                     then (0, w(n \<mapsto> S\<lparr>fleets := fleets S - {(fl, chance f)}\<rparr>))
                     else (- 1, w))
            | U_name p \<Rightarrow> (- 1, w))))"

text \<open>Modelled from the spec: the engine over this world. Every fleet name resolves to
  the fleet of that name, the definitions document is \<open>doc\<close>, the local \<open>hunk\<close> starts as
  \<open>h0\<close>.\<close>

definition univ_env :: "xmlNode \<Rightarrow> UniHunk \<Rightarrow> (universe, string) env" where
  "univ_env doc h0 =
     \<lparr>system_get = univ_system_get,
      system_addPlanet = univ_addPlanet,
      system_rmPlanet = univ_rmPlanet,
      system_addFleet = univ_addFleet,
      system_rmFleet = univ_rmFleet,
      fleet_get = (\<lambda>nm. nm),
      unidiff_doc = doc,
      stack_hunk = h0\<rparr>"

text \<open>Modelled from the spec: \<^verbatim>\<open>fleet_get\<close> of fleet.c over the fleets that are defined; the
  fleet of that name, NULL when there is none.\<close>

definition univ_fleet_get :: "string list \<Rightarrow> string option \<Rightarrow> string option" where
  "univ_fleet_get known nm =
     (case nm of None \<Rightarrow> None | Some n \<Rightarrow> if n \<in> set known then Some n else None)"

text \<open>Modelled from the spec: the engine over this world when only the fleets \<open>known\<close> are
  defined.\<close>

definition univ_env_fleets :: "string list \<Rightarrow> xmlNode \<Rightarrow> UniHunk \<Rightarrow> (universe, string) env" where
  "univ_env_fleets known doc h0 = (univ_env doc h0)\<lparr>fleet_get := univ_fleet_get known\<rparr>"

subsection \<open>The hunks of a definition, apart from their application\<close>

text \<open>A hunk applied through the world-mutation interface: the mutator for the kind of
  the hunk is called with the system the target resolves to, the payload and the world,
  and gives its status and the new world. A hunk of no kind reaches no mutator.\<close>

definition hunk_effect :: "('w, 's) env \<Rightarrow> UniHunk \<Rightarrow> 'w \<Rightarrow> int \<times> 'w" where
  "hunk_effect E hunk w =
     (case hunk_type hunk of
        HUNK_TYPE_PLANET_ADD \<Rightarrow>
          system_addPlanet E (system_get E w (target_name (target hunk))) (hunk_u hunk) w
      | HUNK_TYPE_PLANET_REMOVE \<Rightarrow>
          system_rmPlanet E (system_get E w (target_name (target hunk))) (hunk_u hunk) w
      | HUNK_TYPE_FLEET_ADD \<Rightarrow>
          system_addFleet E (system_get E w (target_name (target hunk))) (hunk_u hunk) w
      | HUNK_TYPE_FLEET_REMOVE \<Rightarrow>
          system_rmFleet E (system_get E w (target_name (target hunk))) (hunk_u hunk) w
      | HUNK_TYPE_NONE \<Rightarrow> (- 1, w))"

text \<open>
  Routing as the specification words it: each hunk is applied to the world at once;
  a hunk the mutator rejects (negative status) goes to the end of \<open>failed\<close>, any other to
  the end of \<open>applied\<close>. The triple is the world, \<open>applied\<close> and \<open>failed\<close>.
\<close>

fun route ::
  "('w, 's) env \<Rightarrow> UniHunk list \<Rightarrow> 'w \<times> UniHunk list \<times> UniHunk list
     \<Rightarrow> 'w \<times> UniHunk list \<times> UniHunk list" where
  "route E [] x = x"
| "route E (h # hs) (w, a, f) =
     (case hunk_effect E h w of
        (r, w') \<Rightarrow> if r < 0 then route E hs (w', a, f @ [h]) else route E hs (w', a @ [h], f))"

text \<open>The hunks a definition gives, in document order: the loops of \<open>diff_patch\<close> with
  \<open>diff_patch_hunk\<close> alone, the local \<open>hunk\<close> carried along as there.\<close>

fun diff_patch_hunks_curs ::
  "('w, 's) env \<Rightarrow> UniHunk \<Rightarrow> xmlNode list \<Rightarrow> UniHunk \<Rightarrow> fault + (UniHunk list \<times> UniHunk)" where
  "diff_patch_hunks_curs E base [] hunk = Inr ([], hunk)"
| "diff_patch_hunks_curs E base (cur # rest) hunk =
     (case diff_patch_hunk E base cur hunk of
        Inl e \<Rightarrow> Inl e
      | Inr None \<Rightarrow> diff_patch_hunks_curs E base rest hunk
      | Inr (Some hunk') \<Rightarrow>
          (case diff_patch_hunks_curs E base rest hunk' of
             Inl e \<Rightarrow> Inl e
           | Inr (hs, hunk'') \<Rightarrow> Inr (hunk' # hs, hunk'')))"

fun diff_patch_hunks_nodes ::
  "('w, 's) env \<Rightarrow> xmlNode list \<Rightarrow> UniHunk \<Rightarrow> fault + (UniHunk list \<times> UniHunk)" where
  "diff_patch_hunks_nodes E [] hunk = Inr ([], hunk)"
| "diff_patch_hunks_nodes E (node # rest) hunk =
     (if xml_isNode node ''system'' then
        (case diff_patch_hunks_curs E (diff_patch_base node) (xmlChildrenNode node) hunk of
           Inl e \<Rightarrow> Inl e
         | Inr (hs, hunk') \<Rightarrow>
             (case diff_patch_hunks_nodes E rest hunk' of
                Inl e \<Rightarrow> Inl e
              | Inr (hs', hunk'') \<Rightarrow> Inr (hs @ hs', hunk'')))
      else diff_patch_hunks_nodes E rest hunk)"

definition diff_patch_hunks :: "('w, 's) env \<Rightarrow> xmlNode \<Rightarrow> fault + UniHunk list" where
  "diff_patch_hunks E parent =
     (case diff_patch_hunks_nodes E (xmlChildrenNode parent) (stack_hunk E) of
        Inl e \<Rightarrow> Inl e
      | Inr (hs, hunk) \<Rightarrow> Inr hs)"





text \<open>A hunk whose debugging line at the end of \<open>diff_patch\<close> can be printed.\<close>

definition hunk_printable :: "UniHunk \<Rightarrow> bool" where
  "hunk_printable h = (case diff_patch_debug_hunk h of Inl e \<Rightarrow> False | Inr m \<Rightarrow> True)"

text \<open>\<open>filed E i hs s s'\<close>: from \<open>s\<close> to \<open>s'\<close> the hunks \<open>hs\<close> were routed into the diff at
  index \<open>i\<close>; nothing else changed but the log.\<close>

definition filed :: "('w, 's) env \<Rightarrow> nat \<Rightarrow> UniHunk list \<Rightarrow> 'w state \<Rightarrow> 'w state \<Rightarrow> bool" where
  "filed E i hs s s' =
     (case route E hs (world s, applied (diff_stack s ! i), failed (diff_stack s ! i)) of
        (w', a, f) \<Rightarrow>
          world s' = w' \<and>
          diff_stack s' = (diff_stack s)[i := (diff_stack s ! i)\<lparr>applied := a, failed := f\<rparr>] \<and>
          bufs_held s' = bufs_held s \<and> docs_held s' = docs_held s)"

text \<open>The element the search loop of \<open>diff_apply\<close> stops at.\<close>

fun diff_find :: "xmlNode list \<Rightarrow> string option \<Rightarrow> fault + xmlNode option" where
  "diff_find [] nm = Inr None"
| "diff_find (node # rest) nm =
     (if xml_isNode node ''unidiff'' then
        (case strcmp (xmlr_attr node ''name'') nm of
           Inl e \<Rightarrow> Inl e
         | Inr c \<Rightarrow> if c = 0 then Inr (Some node) else diff_find rest nm)
      else diff_find rest nm)"

subsection \<open>Reversal, as specified\<close>

text \<open>
  Inversion as the specification words it: PlanetAdd and PlanetRemove are swapped,
  FleetAdd and FleetRemove are swapped, target and payload stay; a hunk of any other
  kind has no inverse.
\<close>

definition spec_invert :: "UniHunk \<Rightarrow> UniHunk option" where
  "spec_invert h =
     (if hunk_type h = HUNK_TYPE_PLANET_ADD then Some (h\<lparr>hunk_type := HUNK_TYPE_PLANET_REMOVE\<rparr>)
      else if hunk_type h = HUNK_TYPE_PLANET_REMOVE then Some (h\<lparr>hunk_type := HUNK_TYPE_PLANET_ADD\<rparr>)
      else if hunk_type h = HUNK_TYPE_FLEET_ADD then Some (h\<lparr>hunk_type := HUNK_TYPE_FLEET_REMOVE\<rparr>)
      else if hunk_type h = HUNK_TYPE_FLEET_REMOVE then Some (h\<lparr>hunk_type := HUNK_TYPE_FLEET_ADD\<rparr>)
      else None)"

text \<open>One step of the reversal: the inverse of the hunk goes through \<open>diff_patchHunk\<close>,
  whatever its status; a hunk without inverse leaves a warning.\<close>

definition revert_step :: "('w, 's) env \<Rightarrow> 'w state \<Rightarrow> UniHunk \<Rightarrow> 'w state" where
  "revert_step E s h =
     (case spec_invert h of
        Some h' \<Rightarrow> snd (diff_patchHunk E h' s)
      | None \<Rightarrow> s\<lparr>msgs := msgs s @
                  [WARN ''Unknown Hunk type %d.'' [ArgD (hunk_type_int (hunk_type h))]]\<rparr>)"

text \<open>The same on the world alone.\<close>

definition revert :: "('w, 's) env \<Rightarrow> UniHunk list \<Rightarrow> 'w \<Rightarrow> 'w" where
  "revert E hs w =
     foldl (\<lambda>w h. case spec_invert h of Some h' \<Rightarrow> snd (hunk_effect E h' w) | None \<Rightarrow> w) w hs"

subsection \<open>Hunks as actions on the world of systems\<close>

text \<open>
  In the world of systems a hunk that can be accepted at all names an item of a system,
  a planet or a fleet with its chance, and adds or removes it: \<open>hunk_action\<close> gives the
  direction, the system and the item. \<open>mutate\<close> is the mutator on that level, \<open>None\<close> when
  it fails, and \<open>mutate_all\<close> runs a list of actions that are all accepted. \<open>act\<close> is an
  action that changes the world: it is \<open>None\<close> also for the addition of an item that is
  there. \<open>try_act\<close> leaves the world as it is when the action does not change it, as the
  reversal does.
\<close>

datatype item = Planet string | Fleet string "32 word"

fun has_item :: "StarSystem \<Rightarrow> item \<Rightarrow> bool" where
  "has_item S (Planet p) = (p \<in> planets S)"
| "has_item S (Fleet fl ch) = ((fl, ch) \<in> fleets S)"

fun set_item :: "bool \<Rightarrow> StarSystem \<Rightarrow> item \<Rightarrow> StarSystem" where
  "set_item True S (Planet p) = S\<lparr>planets := insert p (planets S)\<rparr>"
| "set_item False S (Planet p) = S\<lparr>planets := planets S - {p}\<rparr>"
| "set_item True S (Fleet fl ch) = S\<lparr>fleets := insert (fl, ch) (fleets S)\<rparr>"
| "set_item False S (Fleet fl ch) = S\<lparr>fleets := fleets S - {(fl, ch)}\<rparr>"

definition item_of :: "hunk_u \<Rightarrow> bool \<Rightarrow> item option" where
  "item_of pl planet =
     (case pl of
        U_name p \<Rightarrow> (if planet then map_option Planet p else None)
      | U_fleet f \<Rightarrow> (if planet then None else map_option (\<lambda>fl. Fleet fl (chance f)) (fleet f)))"

definition hunk_action :: "UniHunk \<Rightarrow> (bool \<times> string \<times> item) option" where
  "hunk_action h =
     (case target_name (target h) of
        None \<Rightarrow> None
      | Some n \<Rightarrow>
          (case hunk_type h of
             HUNK_TYPE_NONE \<Rightarrow> None
           | HUNK_TYPE_PLANET_ADD \<Rightarrow> map_option (\<lambda>it. (True, n, it)) (item_of (hunk_u h) True)
           | HUNK_TYPE_PLANET_REMOVE \<Rightarrow> map_option (\<lambda>it. (False, n, it)) (item_of (hunk_u h) True)
           | HUNK_TYPE_FLEET_ADD \<Rightarrow> map_option (\<lambda>it. (True, n, it)) (item_of (hunk_u h) False)
           | HUNK_TYPE_FLEET_REMOVE \<Rightarrow> map_option (\<lambda>it. (False, n, it)) (item_of (hunk_u h) False)))"

definition has_at :: "universe \<Rightarrow> string \<times> item \<Rightarrow> bool" where
  "has_at w k = (case w (fst k) of None \<Rightarrow> False | Some S \<Rightarrow> has_item S (snd k))"

fun mutate :: "bool \<times> string \<times> item \<Rightarrow> universe \<Rightarrow> universe option" where
  "mutate (add, n, it) w =
     (case w n of
        None \<Rightarrow> None
      | Some S \<Rightarrow>
          if \<not> add \<and> \<not> has_item S it then None else Some (w(n \<mapsto> set_item add S it)))"

fun mutate_all :: "(bool \<times> string \<times> item) list \<Rightarrow> universe \<Rightarrow> universe option" where
  "mutate_all [] w = Some w"
| "mutate_all (a # as) w = (case mutate a w of None \<Rightarrow> None | Some w' \<Rightarrow> mutate_all as w')"

fun act :: "bool \<times> string \<times> item \<Rightarrow> universe \<Rightarrow> universe option" where
  "act (add, n, it) w =
     (case w n of
        None \<Rightarrow> None
      | Some S \<Rightarrow> if has_item S it = add then None else Some (w(n \<mapsto> set_item add S it)))"

fun acts_all :: "(bool \<times> string \<times> item) list \<Rightarrow> universe \<Rightarrow> universe option" where
  "acts_all [] w = Some w"
| "acts_all (a # as) w = (case act a w of None \<Rightarrow> None | Some w' \<Rightarrow> acts_all as w')"

fun inv_act :: "bool \<times> string \<times> item \<Rightarrow> bool \<times> string \<times> item" where
  "inv_act (add, n, it) = (\<not> add, n, it)"

definition try_act :: "universe \<Rightarrow> bool \<times> string \<times> item \<Rightarrow> universe" where
  "try_act w a = (case act a w of None \<Rightarrow> w | Some w' \<Rightarrow> w')"

text \<open>A hunk that adds, and a hunk whose item is in its target system.\<close>

definition hunk_adds :: "UniHunk \<Rightarrow> bool" where
  "hunk_adds h = (hunk_type h = HUNK_TYPE_PLANET_ADD \<or> hunk_type h = HUNK_TYPE_FLEET_ADD)"

definition hunk_item_present :: "universe \<Rightarrow> UniHunk \<Rightarrow> bool" where
  "hunk_item_present w h =
     (case hunk_action h of None \<Rightarrow> False | Some a \<Rightarrow> has_at w (snd a))"

subsection \<open>Save and load\<close>

text \<open>A name the definitions document defines: the document is well formed, the search
  loop of \<open>diff_apply\<close> stops at an element of that name, the hunks of the element are
  built without a fault, and each of them can be printed should it fail.\<close>

definition diff_defined :: "('w, 's) env \<Rightarrow> string \<Rightarrow> bool" where
  "diff_defined E nm =
     (node_name (unidiff_doc E) = ''unidiffs'' \<and>
      (case diff_find (xmlChildrenNode (unidiff_doc E)) (Some nm) of
         Inl e \<Rightarrow> False
       | Inr None \<Rightarrow> False
       | Inr (Some node) \<Rightarrow>
           (case diff_patch_hunks E node of
              Inl e \<Rightarrow> False
            | Inr hs \<Rightarrow> list_all hunk_printable hs)))"

text \<open>A name \<open>diff_apply\<close> does not find: the document is malformed, or the search loop
  runs to the end without a fault.\<close>

definition diff_undefined :: "('w, 's) env \<Rightarrow> string \<Rightarrow> bool" where
  "diff_undefined E nm =
     (node_name (unidiff_doc E) \<noteq> ''unidiffs'' \<or> xmlChildrenNode (unidiff_doc E) = [] \<or>
      diff_find (xmlChildrenNode (unidiff_doc E)) (Some nm) = Inr None)"


subsection \<open>Examples\<close>

text \<open>
  A world with the one system Sol, and definitions documents: \<^verbatim>\<open>colony\<close> adds a planet and
  a fleet to Sol and a planet to a system that does not exist; \<^verbatim>\<open>flip\<close> adds planet A
  to Sol and removes it again; \<^verbatim>\<open>grow\<close> is \<^verbatim>\<open>colony\<close> without the hunk that fails;
  \<^verbatim>\<open>raid\<close> adds a planet to Sol and a fleet that is not defined to a system that does not
  exist; \<^verbatim>\<open>retain\<close> has a planet element with the text \<^verbatim>\<open>toggle\<close> after one with the text
  \<^verbatim>\<open>add\<close>; \<^verbatim>\<open>again\<close> adds to Sol the planet it has. The states and hunks are the ones
  these diffs lead to.
\<close>

definition state0 :: "universe \<Rightarrow> universe state" where
  "state0 w = \<lparr>diff_stack = [], world = w, msgs = [], bufs_held = 0, docs_held = 0\<rparr>"

definition sol :: universe where
  "sol = [''Sol'' \<mapsto> \<lparr>planets = {''Earth''}, fleets = {}\<rparr>]"

definition elem_pirates :: xmlNode where
  "elem_pirates = Elem ''fleet'' [(''name'', ''Pirate''), (''chance'', ''150'')] [Text ''add'']"

definition node_colony :: xmlNode where
  "node_colony =
     Elem ''unidiff'' [(''name'', ''colony'')]
       [Elem ''system'' [(''name'', ''Sol'')]
          [Elem ''planet'' [(''name'', ''Mars'')] [Text ''add''], elem_pirates],
        Elem ''system'' [(''name'', ''Nowhere'')]
          [Elem ''planet'' [(''name'', ''Ghost'')] [Text ''add'']]]"

definition node_flip :: xmlNode where
  "node_flip =
     Elem ''unidiff'' [(''name'', ''flip'')]
       [Elem ''system'' [(''name'', ''Sol'')]
          [Elem ''planet'' [(''name'', ''A'')] [Text ''add''],
           Elem ''planet'' [(''name'', ''A'')] [Text ''remove'']]]"

definition doc_colony :: xmlNode where
  "doc_colony = Elem ''unidiffs'' [] [node_colony, node_flip]"

definition doc_wrong_root :: xmlNode where
  "doc_wrong_root = Elem ''universe'' [] [Elem ''unidiff'' [(''name'', ''colony'')] []]"

definition doc_no_elements :: xmlNode where
  "doc_no_elements = Elem ''unidiffs'' [] []"

definition base_sol :: UniHunk where
  "base_sol = diff_patch_base (Elem ''system'' [(''name'', ''Sol'')] [elem_pirates])"

definition hunk_mars :: UniHunk where
  "hunk_mars =
     \<lparr>target = \<lparr>target_type = HUNK_TARGET_SYSTEM, target_name = Some ''Sol''\<rparr>,
      hunk_type = HUNK_TYPE_PLANET_ADD, hunk_u = U_name (Some ''Mars'')\<rparr>"

definition hunk_pirate :: UniHunk where
  "hunk_pirate =
     \<lparr>target = \<lparr>target_type = HUNK_TARGET_SYSTEM, target_name = Some ''Sol''\<rparr>,
      hunk_type = HUNK_TYPE_FLEET_ADD,
      hunk_u = U_fleet \<lparr>fleet = Some ''Pirate'', chance = 150\<rparr>\<rparr>"

definition hunk_ghost :: UniHunk where
  "hunk_ghost =
     \<lparr>target = \<lparr>target_type = HUNK_TARGET_SYSTEM, target_name = Some ''Nowhere''\<rparr>,
      hunk_type = HUNK_TYPE_PLANET_ADD, hunk_u = U_name (Some ''Ghost'')\<rparr>"

definition sol_colony :: universe where
  "sol_colony = [''Sol'' \<mapsto> \<lparr>planets = {''Mars'', ''Earth''}, fleets = {(''Pirate'', 150)}\<rparr>]"

definition hunk_add_A :: UniHunk where
  "hunk_add_A =
     \<lparr>target = \<lparr>target_type = HUNK_TARGET_SYSTEM, target_name = Some ''Sol''\<rparr>,
      hunk_type = HUNK_TYPE_PLANET_ADD, hunk_u = U_name (Some ''A'')\<rparr>"

definition hunk_remove_A :: UniHunk where
  "hunk_remove_A =
     \<lparr>target = \<lparr>target_type = HUNK_TARGET_SYSTEM, target_name = Some ''Sol''\<rparr>,
      hunk_type = HUNK_TYPE_PLANET_REMOVE, hunk_u = U_name (Some ''A'')\<rparr>"

definition state_flip :: "universe state" where
  "state_flip =
     (state0 sol)\<lparr>diff_stack :=
        [\<lparr>name = Some ''flip'', applied = [hunk_add_A, hunk_remove_A], failed = []\<rparr>]\<rparr>"

definition node_grow :: xmlNode where
  "node_grow =
     Elem ''unidiff'' [(''name'', ''grow'')]
       [Elem ''system'' [(''name'', ''Sol'')]
          [Elem ''planet'' [(''name'', ''Mars'')] [Text ''add''], elem_pirates]]"

definition doc_grow :: xmlNode where
  "doc_grow = Elem ''unidiffs'' [] [node_grow]"

definition sol_A :: universe where
  "sol_A = [''Sol'' \<mapsto> \<lparr>planets = {''A'', ''Earth''}, fleets = {}\<rparr>]"

definition node_raid :: xmlNode where
  "node_raid =
     Elem ''unidiff'' [(''name'', ''raid'')]
       [Elem ''system'' [(''name'', ''Sol'')]
          [Elem ''planet'' [(''name'', ''Mars'')] [Text ''add'']],
        Elem ''system'' [(''name'', ''Nowhere'')]
          [Elem ''fleet'' [(''name'', ''Raiders''), (''chance'', ''50'')] [Text ''add'']]]"

definition doc_raid :: xmlNode where
  "doc_raid = Elem ''unidiffs'' [] [node_raid]"

definition hunk_raiders :: UniHunk where
  "hunk_raiders =
     \<lparr>target = \<lparr>target_type = HUNK_TARGET_SYSTEM, target_name = Some ''Nowhere''\<rparr>,
      hunk_type = HUNK_TYPE_FLEET_ADD,
      hunk_u = U_fleet \<lparr>fleet = None, chance = 50\<rparr>\<rparr>"

definition sol_mars :: universe where
  "sol_mars = [''Sol'' \<mapsto> \<lparr>planets = {''Mars'', ''Earth''}, fleets = {}\<rparr>]"





definition node_again :: xmlNode where
  "node_again =
     Elem ''unidiff'' [(''name'', ''again'')]
       [Elem ''system'' [(''name'', ''Sol'')]
          [Elem ''planet'' [(''name'', ''Earth'')] [Text ''add'']]]"

definition doc_again :: xmlNode where
  "doc_again = Elem ''unidiffs'' [] [node_again]"

definition hunk_earth :: UniHunk where
  "hunk_earth =
     \<lparr>target = \<lparr>target_type = HUNK_TARGET_SYSTEM, target_name = Some ''Sol''\<rparr>,
      hunk_type = HUNK_TYPE_PLANET_ADD, hunk_u = U_name (Some ''Earth'')\<rparr>"

definition sol_bare :: universe where
  "sol_bare = [''Sol'' \<mapsto> \<lparr>planets = {}, fleets = {}\<rparr>]"


section \<open>Facts about the engine\<close>

subsection \<open>Routing the hunks of a definition\<close>

lemma diff_patchHunk_effect:
  "fst (diff_patchHunk E h s) = fst (hunk_effect E h (world s))"
  "world (snd (diff_patchHunk E h s)) = snd (hunk_effect E h (world s))"
  "bufs_held (snd (diff_patchHunk E h s)) = bufs_held s"
  "docs_held (snd (diff_patchHunk E h s)) = docs_held s"
  by (simp_all add: diff_patchHunk_def hunk_effect_def split: UniHunkType.split prod.split)

lemma route_append: "route E (hs @ hs') x = route E hs' (route E hs x)"
  by (induction E hs x rule: route.induct) (simp_all split: prod.split)

lemma filed_Nil: "filed E i [] s s"
  by (simp add: filed_def)

lemma filed_msgs_left: "filed E i hs (s\<lparr>msgs := m\<rparr>) s' = filed E i hs s s'"
  by (simp add: filed_def)

lemma filed_file:
  "i < length (diff_stack s) \<Longrightarrow> filed E i [h] s (diff_patch_file E (Some i) h s)"
  using diff_patchHunk_effect [of E h s] diff_patchHunk_stack [of E h s]
  by (cases "diff_patchHunk E h s"; cases "hunk_effect E h (world s)")
     (simp add: filed_def diff_patch_file_def diff_hunkFailed_def diff_hunkSuccess_def)

lemma filed_trans:
  assumes "i < length (diff_stack s)" "filed E i hs s s1" "filed E i hs' s1 s2"
  shows "filed E i (hs @ hs') s s2"
proof -
  obtain w1 a1 f1 where r1:
    "route E hs (world s, applied (diff_stack s ! i), failed (diff_stack s ! i)) = (w1, a1, f1)"
    by (metis prod_cases3)
  obtain w2 a2 f2 where r2: "route E hs' (w1, a1, f1) = (w2, a2, f2)"
    by (metis prod_cases3)
  from assms(2) r1 have s1: "world s1 = w1"
    "diff_stack s1 = (diff_stack s)[i := (diff_stack s ! i)\<lparr>applied := a1, failed := f1\<rparr>]"
    "bufs_held s1 = bufs_held s" "docs_held s1 = docs_held s"
    by (simp_all add: filed_def)
  from assms(1) s1 have at: "diff_stack s1 ! i = (diff_stack s ! i)\<lparr>applied := a1, failed := f1\<rparr>"
    by simp
  from assms(3) r2 s1 at show ?thesis
    by (simp add: filed_def route_append r1)
qed

lemma filed_fold:
  "i < length (diff_stack s) \<Longrightarrow> filed E i hs s (fold (diff_patch_file E (Some i)) hs s)"
proof (induction hs arbitrary: s)
  case Nil
  then show ?case by (simp add: filed_Nil)
next
  case (Cons h hs)
  let ?s1 = "diff_patch_file E (Some i) h s"
  have f1: "filed E i [h] s ?s1" using Cons.prems by (rule filed_file)
  then have "i < length (diff_stack ?s1)"
    using Cons.prems by (simp add: filed_def split: prod.splits)
  then have "filed E i hs ?s1 (fold (diff_patch_file E (Some i)) hs ?s1)" by (rule Cons.IH)
  with filed_trans [OF Cons.prems f1] show ?case by fastforce
qed

lemma diff_patch_curs_fold:
  "diff_patch_curs E diff base curs (hunk, s) =
     (case diff_patch_hunks_curs E base curs hunk of
        Inl e \<Rightarrow> Inl e
      | Inr (hs, hunk') \<Rightarrow> Inr (hunk', fold (diff_patch_file E diff) hs s))"
  by (induction curs arbitrary: hunk s)
     (simp_all add: diff_patch_cur_def split: sum.split option.split prod.split)

lemma filed_length: "filed E i hs s s' \<Longrightarrow> length (diff_stack s') = length (diff_stack s)"
  by (simp add: filed_def split: prod.splits)

lemma diff_patch_nodes_fault:
  "diff_patch_hunks_nodes E nodes hunk = Inl e \<Longrightarrow> diff_patch_nodes E i nodes (hunk, s) = Inl e"
proof (induction nodes arbitrary: hunk s)
  case Nil
  then show ?case by simp
next
  case (Cons node rest)
  then show ?case
    by (auto simp: diff_patch_node_def diff_patch_curs_fold Let_def
             split: sum.splits prod.splits if_splits)
qed

lemma diff_patch_nodes_filed:
  "diff_patch_hunks_nodes E nodes hunk = Inr (hs, hf) \<Longrightarrow> i < length (diff_stack s) \<Longrightarrow>
   \<exists>s'. diff_patch_nodes E i nodes (hunk, s) = Inr (hf, s') \<and> filed E i hs s s'"
proof (induction nodes arbitrary: hunk s hs)
  case Nil
  then show ?case by (simp add: filed_Nil)
next
  case (Cons node rest)
  show ?case
  proof (cases "xml_isNode node ''system''")
    case False
    with Cons show ?thesis by (simp add: diff_patch_node_def)
  next
    case True
    with Cons.prems(1) obtain hs1 h1 hs2 where
      c: "diff_patch_hunks_curs E (diff_patch_base node) (xmlChildrenNode node) hunk = Inr (hs1, h1)"
      and r: "diff_patch_hunks_nodes E rest h1 = Inr (hs2, hf)" and hs: "hs = hs1 @ hs2"
      by (auto split: sum.splits prod.splits)
    define s0 where "s0 =
      (if target_name (target (diff_patch_base node)) = None
       then s\<lparr>msgs := msgs s @
              [WARN ''Unidiff %s has a system node without a name tag''
                 [ArgS (name (diff_stack s ! i))]]\<rparr>
       else s)"
    define s1 where "s1 = fold (diff_patch_file E (Some i)) hs1 s0"
    have len0: "i < length (diff_stack s0)" using Cons.prems(2) by (simp add: s0_def)
    then have "filed E i hs1 s0 s1" unfolding s1_def by (rule filed_fold)
    then have f1: "filed E i hs1 s s1" by (simp add: s0_def filed_msgs_left split: if_splits)
    then have "i < length (diff_stack s1)" using Cons.prems(2) by (simp add: filed_length)
    from Cons.IH [OF r this] obtain s' where
      s': "diff_patch_nodes E i rest (h1, s1) = Inr (hf, s')" "filed E i hs2 s1 s'"
      by blast
    have step: "diff_patch_node E i node (hunk, s) = Inr (h1, s1)"
      using True c by (simp add: diff_patch_node_def diff_patch_curs_fold Let_def s0_def s1_def)
    from filed_trans [OF Cons.prems(2) f1 s'(2)] s'(1) step hs show ?thesis by simp
  qed
qed

lemma strcmp_Some [simp]: "strcmp (Some x) (Some y) = Inr (if x = y then 0 else 1)"
  by (simp add: strcmp_def)

lemma strcmp_None [simp]: "strcmp None b = Inl NullDeref" "strcmp a None = Inl NullDeref"
  by (simp_all add: strcmp_def split: option.split)

lemma diff_patch_fault:
  "diff_patch_hunks E parent = Inl e \<Longrightarrow> diff_patch E parent s = Inl e"
  by (auto simp: diff_patch_hunks_def diff_patch_def diff_newDiff_def Let_def
                 diff_patch_nodes_fault split: sum.splits prod.splits)

lemma diff_patch_debug_hunks_printable:
  "list_all hunk_printable f \<Longrightarrow> \<exists>ms. diff_patch_debug_hunks f = Inr ms"
  by (induction f) (auto simp: hunk_printable_def split: sum.splits)

lemma diff_patch_debug_hunks_unprintable:
  "\<not> list_all hunk_printable f \<Longrightarrow> \<exists>e. diff_patch_debug_hunks f = Inl e"
  by (induction f) (auto simp: hunk_printable_def split: sum.splits)

lemma diff_patch_debug_printable:
  "list_all hunk_printable (failed d) \<Longrightarrow> \<exists>ms. diff_patch_debug d = Inr ms"
  using diff_patch_debug_hunks_printable [of "failed d"] by (auto simp: diff_patch_debug_def)

lemma diff_patch_debug_unprintable:
  "\<not> list_all hunk_printable (failed d) \<Longrightarrow> \<exists>e. diff_patch_debug d = Inl e"
  using diff_patch_debug_hunks_unprintable [of "failed d"]
  by (cases "failed d") (auto simp: diff_patch_debug_def)



lemma diff_patch_routed:
  assumes "diff_patch_hunks E parent = Inr hs"
    and "route E hs (world s, [], []) = (w', a, f)"
    and "list_all hunk_printable f"
  shows "\<exists>m. diff_patch E parent s =
           Inr (0, s\<lparr>diff_stack := diff_stack s @
                        [\<lparr>name = xmlr_attr parent ''name'', applied = a, failed = f\<rparr>],
                      world := w', msgs := m\<rparr>)"
proof -
  from assms(1) obtain hf where
    p: "diff_patch_hunks_nodes E (xmlChildrenNode parent) (stack_hunk E) = Inr (hs, hf)"
    by (auto simp: diff_patch_hunks_def split: sum.splits prod.splits)
  define d0 where "d0 = UniDiff_zero\<lparr>name := xmlr_attr parent ''name''\<rparr>"
  define s2 where "s2 = s\<lparr>diff_stack := diff_stack s @ [d0]\<rparr>"
  have len: "length (diff_stack s) < length (diff_stack s2)" by (simp add: s2_def)
  from diff_patch_nodes_filed [OF p len] obtain s3 where
    s3: "diff_patch_nodes E (length (diff_stack s)) (xmlChildrenNode parent) (stack_hunk E, s2)
           = Inr (hf, s3)"
    and fl: "filed E (length (diff_stack s)) hs s2 s3"
    by blast
  from fl assms(2) have flds:
    "world s3 = w'"
    "diff_stack s3 = diff_stack s @ [\<lparr>name = xmlr_attr parent ''name'', applied = a, failed = f\<rparr>]"
    "bufs_held s3 = bufs_held s" "docs_held s3 = docs_held s"
    by (simp_all add: filed_def s2_def d0_def UniDiff_zero_def)
  have eq: "s3\<lparr>msgs := M\<rparr> = s\<lparr>diff_stack := diff_stack s @
                        [\<lparr>name = xmlr_attr parent ''name'', applied = a, failed = f\<rparr>],
                      world := w', msgs := M\<rparr>" for M
    by (rule state.equality) (simp_all add: flds)
  have "failed (diff_stack s3 ! length (diff_stack s)) = f" by (simp add: flds)
  with assms(3) diff_patch_debug_printable [of "diff_stack s3 ! length (diff_stack s)"]
  obtain ms where ms: "diff_patch_debug (diff_stack s3 ! length (diff_stack s)) = Inr ms"
    by auto
  have run: "diff_patch E parent s = Inr (0, s3\<lparr>msgs := msgs s3 @ ms\<rparr>)"
    using s3 ms by (simp add: diff_patch_def diff_newDiff_def Let_def s2_def d0_def)
  show ?thesis unfolding run eq by blast
qed

lemma diff_patch_unprintable:
  assumes "diff_patch_hunks E parent = Inr hs"
    and "route E hs (world s, [], []) = (w', a, f)"
    and "\<not> list_all hunk_printable f"
  shows "\<exists>e. diff_patch E parent s = Inl e"
proof -
  from assms(1) obtain hf where
    p: "diff_patch_hunks_nodes E (xmlChildrenNode parent) (stack_hunk E) = Inr (hs, hf)"
    by (auto simp: diff_patch_hunks_def split: sum.splits prod.splits)
  define d0 where "d0 = UniDiff_zero\<lparr>name := xmlr_attr parent ''name''\<rparr>"
  define s2 where "s2 = s\<lparr>diff_stack := diff_stack s @ [d0]\<rparr>"
  have len: "length (diff_stack s) < length (diff_stack s2)" by (simp add: s2_def)
  from diff_patch_nodes_filed [OF p len] obtain s3 where
    s3: "diff_patch_nodes E (length (diff_stack s)) (xmlChildrenNode parent) (stack_hunk E, s2)
           = Inr (hf, s3)"
    and fl: "filed E (length (diff_stack s)) hs s2 s3"
    by blast
  from fl assms(2) have
    "diff_stack s3 = diff_stack s @ [\<lparr>name = xmlr_attr parent ''name'', applied = a, failed = f\<rparr>]"
    by (simp add: filed_def s2_def d0_def UniDiff_zero_def)
  then have "failed (diff_stack s3 ! length (diff_stack s)) = f" by simp
  with assms(3) diff_patch_debug_unprintable [of "diff_stack s3 ! length (diff_stack s)"]
  obtain e where "diff_patch_debug (diff_stack s3 ! length (diff_stack s)) = Inl e" by auto
  with s3 have "diff_patch E parent s = Inl e"
    by (simp add: diff_patch_def diff_newDiff_def Let_def s2_def d0_def)
  then show ?thesis by blast
qed

lemma diff_apply_loop_find:
  "diff_apply_loop E nm nodes s =
     (case diff_find nodes nm of
        Inl e \<Rightarrow> Inl e
      | Inr None \<Rightarrow>
          Inr (- 1, s\<lparr>docs_held := docs_held s - 1, bufs_held := bufs_held s - 1,
                      msgs := msgs s @
                        [WARN ''UniDiff %s not found in dat/unidiff.xml.'' [ArgS nm]]\<rparr>)
      | Inr (Some node) \<Rightarrow>
          (case diff_patch E node s of
             Inl e \<Rightarrow> Inl e
           | Inr (r, s') \<Rightarrow>
               Inr (0, s'\<lparr>docs_held := docs_held s' - 1, bufs_held := bufs_held s' - 1\<rparr>)))"
  by (induction nodes) (simp_all split: sum.split)

lemma diff_find_name:
  "diff_find nodes (Some nm) = Inr (Some node) \<Longrightarrow> xmlr_attr node ''name'' = Some nm"
  by (induction nodes) (auto simp: strcmp_def split: if_splits sum.splits option.splits)

subsection \<open>Reversal\<close>

lemma diff_removeDiff_loop_foldl:
  "diff_removeDiff_loop E hs s = foldl (revert_step E) s hs"
  by (induction hs arbitrary: s)
     (simp_all add: revert_step_def spec_invert_def split: UniHunkType.split)

lemma foldl_revert_step_world:
  "world (foldl (revert_step E) s hs) = revert E hs (world s)"
  unfolding revert_def
  by (induction hs arbitrary: s)
     (simp_all add: revert_step_def diff_patchHunk_effect split: option.split)

lemma foldl_revert_step_frame:
  "diff_stack (foldl (revert_step E) s hs) = diff_stack s"
  "bufs_held (foldl (revert_step E) s hs) = bufs_held s"
  "docs_held (foldl (revert_step E) s hs) = docs_held s"
  by (induction hs arbitrary: s)
     (simp_all add: revert_step_def diff_patchHunk_effect split: option.split)


lemma take_drop_update: "take i (xs[i := x]) @ drop (Suc i) (xs[i := x]) = take i xs @ drop (Suc i) xs"
  by simp

subsection \<open>Lookups in the stack\<close>

lemma diff_get_loop_append:
  "None \<notin> set (map name pre) \<Longrightarrow> Some nm \<notin> set (map name pre) \<Longrightarrow>
   diff_get_loop (pre @ ds) (Some nm) i = diff_get_loop ds (Some nm) (i + length pre)"
proof (induction pre arbitrary: i)
  case Nil
  then show ?case by simp
next
  case (Cons d pre)
  then obtain x where x: "name d = Some x" "x \<noteq> nm" by (cases "name d") auto
  with Cons show ?case by simp
qed

lemma diff_get_loop_absent:
  "None \<notin> set (map name ds) \<Longrightarrow> Some nm \<notin> set (map name ds) \<Longrightarrow>
   diff_get_loop ds (Some nm) i = Inr None"
  using diff_get_loop_append [of ds nm "[]" i] by simp

lemma diff_get_loop_at:
  "None \<notin> set (map name pre) \<Longrightarrow> Some nm \<notin> set (map name pre) \<Longrightarrow> name d = Some nm \<Longrightarrow>
   diff_get_loop (pre @ d # post) (Some nm) i = Inr (Some (i + length pre))"
  by (simp add: diff_get_loop_append)

lemma diff_get_loop_present:
  "None \<notin> set (map name ds) \<Longrightarrow> Some nm \<in> set (map name ds) \<Longrightarrow>
   \<exists>j. diff_get_loop ds (Some nm) i = Inr (Some j)"
proof (induction ds arbitrary: i)
  case Nil
  then show ?case by simp
next
  case (Cons d ds)
  then obtain x where x: "name d = Some x" by (cases "name d") auto
  show ?case
  proof (cases "x = nm")
    case True
    with x show ?thesis by simp
  next
    case False
    with x Cons show ?thesis by simp
  qed
qed

lemma diff_get_loop_None:
  "diff_get_loop ds (Some nm) i = Inr None \<Longrightarrow>
   None \<notin> set (map name ds) \<and> Some nm \<notin> set (map name ds)"
proof (induction ds arbitrary: i)
  case Nil
  then show ?case by simp
next
  case (Cons d ds)
  then show ?case
    by (cases "name d") (auto split: if_splits)
qed

lemma diff_isApplied_0:
  "diff_isApplied s (Some nm) = Inr 0 \<longleftrightarrow>
   None \<notin> set (map name (diff_stack s)) \<and> Some nm \<notin> set (map name (diff_stack s))"
proof
  assume "diff_isApplied s (Some nm) = Inr 0"
  then have "diff_get_loop (diff_stack s) (Some nm) 0 = Inr None"
    by (auto simp: diff_isApplied_def diff_get_def split: sum.splits if_splits)
  then show "None \<notin> set (map name (diff_stack s)) \<and> Some nm \<notin> set (map name (diff_stack s))"
    by (rule diff_get_loop_None)
next
  assume "None \<notin> set (map name (diff_stack s)) \<and> Some nm \<notin> set (map name (diff_stack s))"
  then show "diff_isApplied s (Some nm) = Inr 0"
    by (simp add: diff_isApplied_def diff_get_def diff_get_loop_absent)
qed

subsection \<open>What \<open>diff_apply\<close> returns\<close>


lemma diff_apply_found:
  assumes na: "diff_isApplied s (Some nm) = Inr 0"
    and root: "node_name (unidiff_doc E) = ''unidiffs''"
    and found: "diff_find (xmlChildrenNode (unidiff_doc E)) (Some nm) = Inr (Some node)"
    and hs: "diff_patch_hunks E node = Inr hs"
    and rt: "route E hs (world s, [], []) = (w', a, f)"
    and pr: "list_all hunk_printable f"
  shows "\<exists>m. diff_apply E (Some nm) s =
           Inr (0, s\<lparr>diff_stack := diff_stack s @ [\<lparr>name = Some nm, applied = a, failed = f\<rparr>],
                      world := w', msgs := m\<rparr>)"
proof -
  let ?s2 = "s\<lparr>bufs_held := bufs_held s + 1, docs_held := docs_held s + 1\<rparr>"
  from found have ne: "xmlChildrenNode (unidiff_doc E) \<noteq> []" by auto
  from rt have rt2: "route E hs (world ?s2, [], []) = (w', a, f)" by simp
  from diff_patch_routed [OF hs rt2 pr] diff_find_name [OF found] obtain m where
    m: "diff_patch E node ?s2 =
          Inr (0, ?s2\<lparr>diff_stack := diff_stack ?s2 @ [\<lparr>name = Some nm, applied = a, failed = f\<rparr>],
                      world := w', msgs := m\<rparr>)"
    by auto
  have "diff_apply E (Some nm) s =
          Inr (0, s\<lparr>diff_stack := diff_stack s @ [\<lparr>name = Some nm, applied = a, failed = f\<rparr>],
                      world := w', msgs := m\<rparr>)"
    using na root ne found m by (simp add: diff_apply_def Let_def diff_apply_loop_find)
  then show ?thesis by blast
qed

lemma diff_apply_fault:
  assumes na: "diff_isApplied s (Some nm) = Inr 0"
    and root: "node_name (unidiff_doc E) = ''unidiffs''"
    and found: "diff_find (xmlChildrenNode (unidiff_doc E)) (Some nm) = Inr (Some node)"
    and hs: "diff_patch_hunks E node = Inl e"
  shows "diff_apply E (Some nm) s = Inl e"
proof -
  from found have ne: "xmlChildrenNode (unidiff_doc E) \<noteq> []" by auto
  show ?thesis
    using na root ne found diff_patch_fault [OF hs]
    by (simp add: diff_apply_def Let_def diff_apply_loop_find)
qed

lemma diff_find_absent:
  "\<forall>node \<in> set nodes. xml_isNode node ''unidiff'' \<longrightarrow>
      (\<exists>x. xmlr_attr node ''name'' = Some x \<and> x \<noteq> nm) \<Longrightarrow>
   diff_find nodes (Some nm) = Inr None"
  by (induction nodes) auto

subsection \<open>Removal\<close>

lemma diff_remove_at:
  assumes "diff_get s nm = Inr (Some i)"
  shows "diff_remove E nm s =
           Inr ((foldl (revert_step E) s (applied (diff_stack s ! i)))
                  \<lparr>diff_stack := take i (diff_stack s) @ drop (Suc i) (diff_stack s)\<rparr>)"
  using assms
  by (simp add: diff_remove_def diff_removeDiff_def diff_cleanup_def Let_def
        diff_removeDiff_loop_foldl foldl_revert_step_frame)

lemma diff_remove_last:
  assumes "diff_isApplied s (Some nm) = Inr 0"
    and "diff_stack s' = diff_stack s @ [d]" and "name d = Some nm"
  shows "\<exists>s''. diff_remove E (Some nm) s' = Inr s'' \<and>
           world s'' = revert E (applied d) (world s') \<and> diff_stack s'' = diff_stack s \<and>
           bufs_held s'' = bufs_held s' \<and> docs_held s'' = docs_held s'"
proof -
  from assms(1) have n: "None \<notin> set (map name (diff_stack s))"
    "Some nm \<notin> set (map name (diff_stack s))"
    by (simp_all add: diff_isApplied_0)
  have g: "diff_get s' (Some nm) = Inr (Some (length (diff_stack s)))"
    using diff_get_loop_at [OF n assms(3), of "[]" 0] by (simp add: diff_get_def assms(2))
  show ?thesis
    unfolding diff_remove_at [OF g]
    by (simp add: foldl_revert_step_world foldl_revert_step_frame assms(2))
qed

lemma diff_apply_unprintable:
  assumes na: "diff_isApplied s (Some nm) = Inr 0"
    and root: "node_name (unidiff_doc E) = ''unidiffs''"
    and found: "diff_find (xmlChildrenNode (unidiff_doc E)) (Some nm) = Inr (Some node)"
    and hs: "diff_patch_hunks E node = Inr hs"
    and rt: "route E hs (world s, [], []) = (w', a, f)"
    and pr: "\<not> list_all hunk_printable f"
  shows "\<exists>e. diff_apply E (Some nm) s = Inl e"
proof -
  let ?s2 = "s\<lparr>bufs_held := bufs_held s + 1, docs_held := docs_held s + 1\<rparr>"
  from found have ne: "xmlChildrenNode (unidiff_doc E) \<noteq> []" by auto
  from rt have rt2: "route E hs (world ?s2, [], []) = (w', a, f)" by simp
  from diff_patch_unprintable [OF hs rt2 pr] obtain e where "diff_patch E node ?s2 = Inl e"
    by blast
  with na root ne found have "diff_apply E (Some nm) s = Inl e"
    by (simp add: diff_apply_def Let_def diff_apply_loop_find)
  then show ?thesis by blast
qed

text \<open>Applying a diff that is not active and whose definition is found, when the hunks
  that fail can be printed: the call returns 0, the hunks are routed as the specification
  words it, and removing the diff afterwards replays the inverses of \<open>applied\<close> alone.\<close>

lemma diff_apply_routes:
  assumes "diff_isApplied s (Some nm) = Inr 0"
    and "node_name (unidiff_doc E) = ''unidiffs''"
    and "diff_find (xmlChildrenNode (unidiff_doc E)) (Some nm) = Inr (Some node)"
    and "diff_patch_hunks E node = Inr hs"
    and "route E hs (world s, [], []) = (w', a, f)"
    and "list_all hunk_printable f"
  shows "\<exists>s' s''. diff_apply E (Some nm) s = Inr (0, s') \<and>
           diff_stack s' = diff_stack s @ [\<lparr>name = Some nm, applied = a, failed = f\<rparr>] \<and>
           world s' = w' \<and>
           diff_remove E (Some nm) s' = Inr s'' \<and>
           world s'' = revert E a w' \<and> diff_stack s'' = diff_stack s"
proof -
  from diff_apply_found [OF assms] obtain m where
    ap: "diff_apply E (Some nm) s =
           Inr (0, s\<lparr>diff_stack := diff_stack s @ [\<lparr>name = Some nm, applied = a, failed = f\<rparr>],
                      world := w', msgs := m\<rparr>)"
    by blast
  let ?s' = "s\<lparr>diff_stack := diff_stack s @ [\<lparr>name = Some nm, applied = a, failed = f\<rparr>],
               world := w', msgs := m\<rparr>"
  have "\<exists>s''. diff_remove E (Some nm) ?s' = Inr s'' \<and>
           world s'' = revert E (applied \<lparr>name = Some nm, applied = a, failed = f\<rparr>) (world ?s') \<and>
           diff_stack s'' = diff_stack s \<and>
           bufs_held s'' = bufs_held ?s' \<and> docs_held s'' = docs_held ?s'"
    by (rule diff_remove_last [OF assms(1)]) simp_all
  with ap show ?thesis by auto
qed

subsection \<open>Undoing accepted actions\<close>

lemma univ_hunk_effect:
  "hunk_effect (univ_env doc h0) h w =
     (case hunk_action h of
        None \<Rightarrow> (- 1, w)
      | Some a \<Rightarrow> (case mutate a w of None \<Rightarrow> (- 1, w) | Some w' \<Rightarrow> (0, w')))"
  by (cases "hunk_type h"; cases "target_name (target h)"; cases "hunk_u h")
     (auto simp: hunk_effect_def hunk_action_def item_of_def univ_env_def univ_system_get_def
        univ_addPlanet_def univ_rmPlanet_def univ_addFleet_def univ_rmFleet_def
        split: option.splits)

lemma planets_update_eq [simp]:
  "(S\<lparr>planets := X\<rparr> = S\<lparr>planets := Y\<rparr>) = (X = Y)"
  "(S\<lparr>planets := X\<rparr> = S) = (X = planets S)"
  by (auto dest: arg_cong [where f = planets])

lemma fleets_update_eq [simp]:
  "(S\<lparr>fleets := X\<rparr> = S\<lparr>fleets := Y\<rparr>) = (X = Y)"
  "(S\<lparr>fleets := X\<rparr> = S) = (X = fleets S)"
  by (auto dest: arg_cong [where f = fleets])

lemma has_set_same: "has_item (set_item add S it) it = add"
  by (cases add; cases it) simp_all

lemma has_set_other: "it \<noteq> it' \<Longrightarrow> has_item (set_item add S it) it' = has_item S it'"
  by (cases add; cases it; cases it') auto

lemma set_item_comm:
  "it \<noteq> it' \<Longrightarrow> set_item a (set_item b S it') it = set_item b (set_item a S it) it'"
  by (cases a; cases b; cases it; cases it') auto

lemma set_item_inv: "has_item S it \<noteq> add \<Longrightarrow> set_item (\<not> add) (set_item add S it) it = S"
  by (cases add; cases it) auto

lemma set_item_same: "has_item S it = add \<Longrightarrow> set_item add S it = S"
  by (cases add; cases it) (auto simp: insert_absorb)

lemma mutate_try: "(case mutate a w of None \<Rightarrow> w | Some w' \<Rightarrow> w') = try_act w a"
proof -
  obtain add n it where a: "a = (add, n, it)" by (cases a)
  show ?thesis
  proof (cases "w n")
    case None
    with a show ?thesis by (simp add: try_act_def)
  next
    case (Some S)
    show ?thesis
    proof (cases "has_item S it = add")
      case True
      then have "w(n \<mapsto> set_item add S it) = w" using Some by (simp add: set_item_same fun_upd_idem)
      with a Some True show ?thesis by (cases add) (simp_all add: try_act_def)
    next
      case False
      with a Some show ?thesis by (auto simp: try_act_def)
    qed
  qed
qed

lemma has_at_act_other:
  assumes "act a w = Some w1" "k \<noteq> snd a"
  shows "has_at w1 k = has_at w k"
proof -
  obtain add n it where a: "a = (add, n, it)" by (cases a)
  obtain n' it' where k: "k = (n', it')" by (cases k)
  from assms(1) a obtain S where S: "w n = Some S" "w1 = w(n \<mapsto> set_item add S it)"
    by (auto split: option.splits if_splits)
  show ?thesis
  proof (cases "n' = n")
    case True
    with assms(2) a k have "it \<noteq> it'" by auto
    with True S k show ?thesis by (simp add: has_at_def has_set_other)
  next
    case False
    with S k show ?thesis by (simp add: has_at_def)
  qed
qed

lemma mutate_all_acts:
  "mutate_all as w = Some w' \<Longrightarrow> distinct (map snd as) \<Longrightarrow>
   \<forall>a \<in> set as. fst a \<longrightarrow> \<not> has_at w (snd a) \<Longrightarrow> acts_all as w = Some w'"
proof (induction as arbitrary: w)
  case Nil
  then show ?case by simp
next
  case (Cons a as)
  from Cons.prems(1) obtain w1 where
    w1: "mutate a w = Some w1" "mutate_all as w1 = Some w'"
    by (auto split: option.splits)
  obtain add n it where a: "a = (add, n, it)" by (cases a)
  from Cons.prems(3) a have ab: "add \<longrightarrow> \<not> has_at w (n, it)" by simp
  from w1(1) a ab have ac: "act a w = Some w1"
    by (auto simp: has_at_def split: option.splits if_splits)
  have "\<forall>b \<in> set as. fst b \<longrightarrow> \<not> has_at w1 (snd b)"
  proof
    fix b assume b: "b \<in> set as"
    with Cons.prems(2) have "snd b \<noteq> snd a" by (auto simp: image_iff)
    from has_at_act_other [OF ac this] Cons.prems(3) b
    show "fst b \<longrightarrow> \<not> has_at w1 (snd b)" by simp
  qed
  with Cons.IH [OF w1(2)] Cons.prems(2) have "acts_all as w1 = Some w'" by simp
  with ac show ?case by simp
qed

lemma act_inverse: "act a w = Some w1 \<Longrightarrow> act (inv_act a) w1 = Some w"
proof -
  obtain add n it where a: "a = (add, n, it)" by (cases a)
  assume "act a w = Some w1"
  with a obtain S where S: "w n = Some S" "has_item S it \<noteq> add" "w1 = w(n \<mapsto> set_item add S it)"
    by (auto split: option.splits if_splits)
  then have "w1(n \<mapsto> set_item (\<not> add) (set_item add S it) it) = w"
    by (auto simp: set_item_inv)
  with S a show ?thesis by (simp add: has_set_same)
qed

lemma act_commute:
  assumes "snd a \<noteq> snd c" "act c w1 = Some w" "act a w1 = Some w2"
  shows "\<exists>w3. act a w = Some w3 \<and> act c w2 = Some w3"
proof -
  obtain aa an ai where a: "a = (aa, an, ai)" by (cases a)
  obtain ca cn ci where c: "c = (ca, cn, ci)" by (cases c)
  from assms(2) c obtain Sc where Sc: "w1 cn = Some Sc" "has_item Sc ci \<noteq> ca"
    "w = w1(cn \<mapsto> set_item ca Sc ci)"
    by (auto split: option.splits if_splits)
  from assms(3) a obtain Sa where Sa: "w1 an = Some Sa" "has_item Sa ai \<noteq> aa"
    "w2 = w1(an \<mapsto> set_item aa Sa ai)"
    by (auto split: option.splits if_splits)
  show ?thesis
  proof (cases "an = cn")
    case True
    with assms(1) a c have ne: "ai \<noteq> ci" by simp
    from True Sc Sa have same: "Sa = Sc" by simp
    show ?thesis
      using True ne same Sc Sa a c
      by (simp add: has_set_other set_item_comm [OF ne] )
  next
    case False
    then show ?thesis
      using Sc Sa a c by (auto simp: fun_upd_twist)
  qed
qed

lemma act_push:
  "snd c \<notin> set (map snd as) \<Longrightarrow> act c w1 = Some w \<Longrightarrow> acts_all as w1 = Some w' \<Longrightarrow>
   \<exists>w''. act c w' = Some w'' \<and> acts_all as w = Some w''"
proof (induction as arbitrary: w1 w)
  case Nil
  then show ?case by simp
next
  case (Cons a as)
  from Cons.prems(3) obtain w2 where w2: "act a w1 = Some w2" "acts_all as w2 = Some w'"
    by (auto split: option.splits)
  from Cons.prems(1) have ne: "snd a \<noteq> snd c" by auto
  from act_commute [OF ne Cons.prems(2) w2(1)] obtain w3 where
    w3: "act a w = Some w3" "act c w2 = Some w3" by blast
  from Cons.prems(1) have "snd c \<notin> set (map snd as)" by simp
  from Cons.IH [OF this w3(2) w2(2)] w3(1) show ?case by simp
qed

lemma acts_all_undo:
  "acts_all as w = Some w' \<Longrightarrow> distinct (map snd as) \<Longrightarrow>
   foldl (\<lambda>w a. try_act w (inv_act a)) w' as = w"
proof (induction as arbitrary: w w')
  case Nil
  then show ?case by simp
next
  case (Cons a as)
  from Cons.prems(1) obtain w1 where w1: "act a w = Some w1" "acts_all as w1 = Some w'"
    by (auto split: option.splits)
  have inv: "act (inv_act a) w1 = Some w" using w1(1) by (rule act_inverse)
  have "snd (inv_act a) \<notin> set (map snd as)"
    using Cons.prems(2) by (cases a) auto
  from act_push [OF this inv w1(2)] obtain w'' where
    w'': "act (inv_act a) w' = Some w''" "acts_all as w = Some w''" by blast
  from Cons.prems(2) have "distinct (map snd as)" by simp
  from Cons.IH [OF w''(2) this] w''(1) show ?case by (simp add: try_act_def)
qed

lemma route_failed_length: "length (snd (snd x)) \<le> length (snd (snd (route E hs x)))"
proof (induction E hs x rule: route.induct)
  case (1 E x)
  then show ?case by simp
next
  case (2 E h hs w a f)
  obtain r w1 where e: "hunk_effect E h w = (r, w1)" by (cases "hunk_effect E h w")
  show ?case
  proof (cases "r < 0")
    case True
    with 2(1) [OF e [symmetric] True] e show ?thesis by simp
  next
    case False
    with 2(2) [OF e [symmetric] False] e show ?thesis by simp
  qed
qed

lemma route_none_failed:
  "route (univ_env doc h0) hs (w, a0, f0) = (w', a, f0) \<Longrightarrow>
   a = a0 @ hs \<and> (\<exists>as. map hunk_action hs = map Some as \<and> mutate_all as w = Some w')"
proof (induction hs arbitrary: w a0)
  case Nil
  then show ?case by simp
next
  case (Cons h hs)
  obtain r w1 where e: "hunk_effect (univ_env doc h0) h w = (r, w1)"
    by (cases "hunk_effect (univ_env doc h0) h w")
  show ?case
  proof (cases "r < 0")
    case True
    with Cons.prems e have "route (univ_env doc h0) hs (w1, a0, f0 @ [h]) = (w', a, f0)" by simp
    with route_failed_length [of "(w1, a0, f0 @ [h])" "univ_env doc h0" hs]
    show ?thesis by simp
  next
    case False
    with Cons.prems e have r: "route (univ_env doc h0) hs (w1, a0 @ [h], f0) = (w', a, f0)"
      by simp
    from False e obtain ac where ac: "hunk_action h = Some ac" "mutate ac w = Some w1"
      by (auto simp: univ_hunk_effect split: option.splits)
    from Cons.IH [OF r] obtain as where
      "a = (a0 @ [h]) @ hs" "map hunk_action hs = map Some as" "mutate_all as w1 = Some w'"
      by blast
    with ac have "a = a0 @ h # hs \<and> map hunk_action (h # hs) = map Some (ac # as) \<and>
                  mutate_all (ac # as) w = Some w'"
      by simp
    then show ?thesis by blast
  qed
qed

lemma spec_invert_action:
  "hunk_action h = Some ac \<Longrightarrow>
   \<exists>h'. spec_invert h = Some h' \<and> hunk_action h' = Some (inv_act ac)"
  by (cases "hunk_type h")
     (auto simp: hunk_action_def spec_invert_def split: option.splits)

lemma revert_univ:
  "map hunk_action hs = map Some as \<Longrightarrow>
   revert (univ_env doc h0) hs w = foldl (\<lambda>w a. try_act w (inv_act a)) w as"
proof (induction hs arbitrary: as w)
  case Nil
  then show ?case by (simp add: revert_def)
next
  case (Cons h hs)
  then obtain ac as' where as: "as = ac # as'" "hunk_action h = Some ac"
    "map hunk_action hs = map Some as'"
    by (cases as) auto
  from spec_invert_action [OF as(2)] obtain h' where
    h': "spec_invert h = Some h'" "hunk_action h' = Some (inv_act ac)" by blast
  have step: "snd (hunk_effect (univ_env doc h0) h' w) = try_act w (inv_act ac)"
    by (simp add: univ_hunk_effect h'(2) mutate_try [symmetric] split: option.split)
  have "revert (univ_env doc h0) (h # hs) w =
          revert (univ_env doc h0) hs (snd (hunk_effect (univ_env doc h0) h' w))"
    by (simp add: revert_def h'(1))
  with Cons.IH [OF as(3)] step as(1) show ?case by simp
qed

lemma hunk_action_key:
  assumes "hunk_action h = Some a" "hunk_action h2 = Some a2" "snd a = snd a2"
  shows "(target_name (target h), hunk_u h) = (target_name (target h2), hunk_u h2)"
proof -
  have u: "item_of u p = Some it \<Longrightarrow> item_of u2 p2 = Some it \<Longrightarrow> u = u2" for u u2 p p2 it
    by (cases u; cases u2) (auto simp: item_of_def split: if_splits)
  from assms show ?thesis
    by (cases "hunk_type h"; cases "hunk_type h2")
       (auto simp: hunk_action_def split: option.splits dest: u)
qed

lemma hunk_action_distinct:
  "map hunk_action hs = map Some as \<Longrightarrow>
   distinct (map (\<lambda>h. (target_name (target h), hunk_u h)) hs) \<Longrightarrow> distinct (map snd as)"
proof (induction hs arbitrary: as)
  case Nil
  then show ?case by simp
next
  case (Cons h hs)
  then obtain ac as' where as: "as = ac # as'" "hunk_action h = Some ac"
    "map hunk_action hs = map Some as'"
    by (cases as) auto
  have "snd ac \<notin> set (map snd as')"
  proof
    assume "snd ac \<in> set (map snd as')"
    then obtain a2 where a2: "a2 \<in> set as'" "snd a2 = snd ac" by auto
    then have "Some a2 \<in> set (map hunk_action hs)" using as(3) by simp
    then obtain h2 where h2: "h2 \<in> set hs" "hunk_action h2 = Some a2" by auto
    from hunk_action_key [OF as(2) h2(2)] a2(2)
    have "(target_name (target h), hunk_u h) = (target_name (target h2), hunk_u h2)" by simp
    with h2(1) Cons.prems(2) show False by force
  qed
  moreover from Cons.IH [OF as(3)] Cons.prems(2) have "distinct (map snd as')" by simp
  ultimately show ?case using as(1) by simp
qed

lemma hunk_action_adds: "hunk_action h = Some a \<Longrightarrow> fst a = hunk_adds h"
  by (cases "hunk_type h") (auto simp: hunk_action_def hunk_adds_def split: option.splits)

lemma univ_revert_restores:
  assumes "route (univ_env doc h0) hs (w, [], []) = (w', a, [])"
    and "distinct (map (\<lambda>h. (target_name (target h), hunk_u h)) hs)"
    and "\<forall>h \<in> set hs. hunk_adds h \<longrightarrow> \<not> hunk_item_present w h"
  shows "a = hs \<and> revert (univ_env doc h0) hs w' = w"
proof -
  from route_none_failed [OF assms(1)] obtain as where
    as: "a = hs" "map hunk_action hs = map Some as" "mutate_all as w = Some w'"
    by auto
  from hunk_action_distinct [OF as(2) assms(2)] have d: "distinct (map snd as)" .
  have "\<forall>b \<in> set as. fst b \<longrightarrow> \<not> has_at w (snd b)"
  proof
    fix b assume "b \<in> set as"
    then have "Some b \<in> set (map hunk_action hs)" using as(2) by simp
    then obtain h where h: "h \<in> set hs" "hunk_action h = Some b" by auto
    from assms(3) h(1) have "hunk_adds h \<longrightarrow> \<not> hunk_item_present w h" by blast
    with hunk_action_adds [OF h(2)] h(2)
    show "fst b \<longrightarrow> \<not> has_at w (snd b)" by (simp add: hunk_item_present_def)
  qed
  from mutate_all_acts [OF as(3) d this] have "acts_all as w = Some w'" .
  from acts_all_undo [OF this d] revert_univ [OF as(2)] as(1) show ?thesis by simp
qed

subsection \<open>Loading saved names\<close>

lemma diff_undefined_not_defined: "diff_undefined E nm \<Longrightarrow> \<not> diff_defined E nm"
  by (auto simp: diff_undefined_def diff_defined_def)


lemma diff_apply_active:
  assumes "None \<notin> set (map name (diff_stack s))" "Some nm \<in> set (map name (diff_stack s))"
  shows "diff_apply E (Some nm) s = Inr (0, s)"
proof -
  from assms obtain j where "diff_get s (Some nm) = Inr (Some j)"
    unfolding diff_get_def using diff_get_loop_present by blast
  then show ?thesis by (simp add: diff_apply_def diff_isApplied_def)
qed






subsection \<open>The hunks of the elements\<close>









subsection \<open>The examples evaluated\<close>

lemmas doc_colony_defs = doc_colony_def node_colony_def node_flip_def elem_pirates_def

lemma atoi_str_150: "atoi_str ''150'' = 150"
  by (simp add: atoi_str_def atoi_val_def strtol_sat_def isspace_def isdigit_def)

lemma atoi_str_50: "atoi_str ''50'' = 50"
  by (simp add: atoi_str_def atoi_val_def strtol_sat_def isspace_def isdigit_def)

lemma atoi_str_in_range:
  "- 2147483648 \<le> atoi_val s \<and> atoi_val s \<le> 2147483647 \<longrightarrow> sint (atoi_str s) = atoi_val s"
  by (simp add: atoi_str_def strtol_sat_def signed_of_int signed_take_bit_int_eq_self)

lemma colony_find:
  "diff_find (xmlChildrenNode (unidiff_doc (univ_env doc_colony h0))) (Some ''colony'') =
     Inr (Some node_colony)"
  by (simp add: univ_env_def doc_colony_defs)

lemma colony_hunks:
  "diff_patch_hunks (univ_env doc_colony UniHunk_zero) node_colony =
     Inr [hunk_mars, hunk_pirate, hunk_ghost]"
  by (simp add: diff_patch_hunks_def node_colony_def elem_pirates_def diff_patch_base_def diff_patch_hunk_def
        diff_patch_type_def strdup_def xml_get_def atoi_def atoi_str_150 univ_env_def
        UniHunk_zero_def hunk_mars_def hunk_pirate_def hunk_ghost_def)

lemma colony_route:
  "route (univ_env doc_colony UniHunk_zero) [hunk_mars, hunk_pirate, hunk_ghost] (sol, [], []) =
     (sol_colony, [hunk_mars, hunk_pirate], [hunk_ghost])"
  by (simp add: hunk_effect_def univ_env_def univ_system_get_def univ_addPlanet_def
        univ_addFleet_def hunk_mars_def hunk_pirate_def hunk_ghost_def sol_def sol_colony_def)

lemma colony_revert:
  "revert (univ_env doc_colony UniHunk_zero) [hunk_mars, hunk_pirate] sol_colony = sol"
  apply (simp add: revert_def spec_invert_def hunk_effect_def univ_env_def univ_system_get_def univ_rmPlanet_def
        univ_rmFleet_def hunk_mars_def hunk_pirate_def hunk_ghost_def sol_def sol_colony_def)
  done

lemma colony_partial_failure:
  "\<exists>s' s''. diff_apply (univ_env doc_colony UniHunk_zero) (Some ''colony'') (state0 sol) = Inr (0, s') \<and>
     diff_stack s' = diff_stack (state0 sol) @
       [\<lparr>name = Some ''colony'', applied = [hunk_mars, hunk_pirate], failed = [hunk_ghost]\<rparr>] \<and>
     world s' = sol_colony \<and>
     diff_remove (univ_env doc_colony UniHunk_zero) (Some ''colony'') s' = Inr s'' \<and>
     world s'' = sol \<and> diff_stack s'' = diff_stack (state0 sol)"
proof -
  have 1: "diff_isApplied (state0 sol) (Some ''colony'') = Inr 0"
    by (simp add: diff_isApplied_def diff_get_def state0_def)
  have 2: "node_name (unidiff_doc (univ_env doc_colony UniHunk_zero)) = ''unidiffs''"
    by (simp add: univ_env_def doc_colony_def)
  have 5: "route (univ_env doc_colony UniHunk_zero) [hunk_mars, hunk_pirate, hunk_ghost]
             (world (state0 sol), [], []) = (sol_colony, [hunk_mars, hunk_pirate], [hunk_ghost])"
    using colony_route by (simp add: state0_def)
  have 6: "list_all hunk_printable [hunk_ghost]"
    by (simp add: hunk_printable_def diff_patch_debug_hunk_def hunk_ghost_def)
  from diff_apply_routes [OF 1 2 colony_find colony_hunks 5 6] show ?thesis
    by (simp add: colony_revert)
qed

lemma grow_hunks:
  "diff_patch_hunks (univ_env doc_grow UniHunk_zero) node_grow = Inr [hunk_mars, hunk_pirate]"
  by (simp add: diff_patch_hunks_def node_grow_def elem_pirates_def diff_patch_base_def
        diff_patch_hunk_def diff_patch_type_def strdup_def xml_get_def atoi_def atoi_str_150
        univ_env_def UniHunk_zero_def hunk_mars_def hunk_pirate_def)

lemma grow_route:
  "route (univ_env doc_grow UniHunk_zero) [hunk_mars, hunk_pirate] (sol, [], []) =
     (sol_colony, [hunk_mars, hunk_pirate], [])"
  by (simp add: hunk_effect_def univ_env_def univ_system_get_def univ_addPlanet_def
        univ_addFleet_def hunk_mars_def hunk_pirate_def sol_def sol_colony_def)












text \<open>The diff \<^verbatim>\<open>again\<close> adds to Sol the planet Earth, which Sol has: the hunk is accepted
  and changes nothing, and removing the diff takes Earth away.\<close>

lemma diff_readd_not_restored:
  "route (univ_env doc_again UniHunk_zero) [hunk_earth] (sol, [], []) = (sol, [hunk_earth], []) \<and>
   revert (univ_env doc_again UniHunk_zero) [hunk_earth] sol = sol_bare"
  by (simp add: revert_def spec_invert_def hunk_effect_def univ_env_def univ_system_get_def
        univ_addPlanet_def univ_rmPlanet_def hunk_earth_def sol_def sol_bare_def insert_absorb)

section \<open>The claims\<close>

subsection \<open>Claims about \<open>diff_apply\<close>\<close>

text \<open>
  C2. Applying a name that is already in the active stack returns 0 and leaves the
  whole state as it was: no second diff record, the world untouched, the definitions
  document not read (no buffer and no document allocated), \<open>diff_isApplied\<close> still 1.
\<close>

theorem diff_apply_idempotent:
  assumes "Some nm \<in> set (map name (diff_stack s))"
    and "None \<notin> set (map name (diff_stack s))"
  shows "diff_apply E (Some nm) s = Inr (0, s) \<and> diff_isApplied s (Some nm) = Inr 1"
proof -
  from assms obtain j where "diff_get s (Some nm) = Inr (Some j)"
    unfolding diff_get_def using diff_get_loop_present by blast
  then have "diff_isApplied s (Some nm) = Inr 1"
    by (simp add: diff_isApplied_def)
  then show ?thesis by (simp add: diff_apply_def)
qed

theorem diff_apply_idempotent_witness:
  "diff_apply (univ_env doc_colony UniHunk_zero) (Some ''colony'')
     ((state0 sol)\<lparr>diff_stack := [\<lparr>name = Some ''colony'', applied = [], failed = []\<rparr>]\<rparr>)
   = Inr (0, (state0 sol)\<lparr>diff_stack := [\<lparr>name = Some ''colony'', applied = [], failed = []\<rparr>]\<rparr>)
   \<and> diff_isApplied
       ((state0 sol)\<lparr>diff_stack := [\<lparr>name = Some ''colony'', applied = [], failed = []\<rparr>]\<rparr>)
       (Some ''colony'') = Inr 1"
  using diff_apply_idempotent
    [of "''colony''"
        "(state0 sol)\<lparr>diff_stack := [\<lparr>name = Some ''colony'', applied = [], failed = []\<rparr>]\<rparr>"
        "univ_env doc_colony UniHunk_zero"]
  by (simp add: state0_def)

text \<open>
  C3. With a definitions document whose root is not \<^verbatim>\<open>unidiffs\<close>, \<open>diff_apply\<close> of a name
  that is not active logs the error and returns 0, the value of success; the stack is
  unchanged.
\<close>

theorem diff_apply_wrong_root_returns_0:
  "diff_apply (univ_env doc_wrong_root UniHunk_zero) (Some ''colony'') (state0 sol) =
     Inr (0, (state0 sol)\<lparr>bufs_held := 1, docs_held := 1,
               msgs := [ERR ''Malformed unidiff file: missing root element unidiffs'' []]\<rparr>)"
  by (simp add: diff_apply_def diff_isApplied_def diff_get_def state0_def univ_env_def
        doc_wrong_root_def)

text \<open>
  C7. The definitions document with the root \<^verbatim>\<open>unidiffs\<close> and nothing in it has no
  \<^verbatim>\<open>unidiff\<close> element in which the name \<^verbatim>\<open>does-not-exist\<close> could appear. \<open>diff_apply\<close> of
  that name returns 0, not a failure value, and the log gets an error and no warning.
\<close>

theorem diff_apply_absent_name_no_warning:
  "diff_find (xmlChildrenNode doc_no_elements) (Some ''does-not-exist'') = Inr None \<and>
   diff_apply (univ_env doc_no_elements UniHunk_zero) (Some ''does-not-exist'') (state0 sol) =
     Inr (0, (state0 sol)\<lparr>bufs_held := 1, docs_held := 1,
               msgs := [ERR ''Malformed unidiff file: does not contain elements'' []]\<rparr>)"
  by (simp add: diff_apply_def diff_isApplied_def diff_get_def state0_def univ_env_def
        doc_no_elements_def)

text \<open>
  C7, as the code has it: with a well-formed definitions document (the root is
  \<^verbatim>\<open>unidiffs\<close> and has children) in which every \<^verbatim>\<open>unidiff\<close> element has a name and none has
  the name asked for, \<open>diff_apply\<close> of a name that is not active returns -1 and changes
  nothing but the log, which gets the warning: the stack and \<open>diff_nstack\<close> are as before.
\<close>

theorem diff_apply_not_found:
  assumes "diff_isApplied s (Some nm) = Inr 0"
    and "node_name (unidiff_doc E) = ''unidiffs''"
    and "xmlChildrenNode (unidiff_doc E) \<noteq> []"
    and "\<forall>node \<in> set (xmlChildrenNode (unidiff_doc E)).
           xml_isNode node ''unidiff'' \<longrightarrow> (\<exists>x. xmlr_attr node ''name'' = Some x \<and> x \<noteq> nm)"
  shows "\<exists>s'. diff_apply E (Some nm) s = Inr (- 1, s') \<and>
              s' = s\<lparr>msgs := msgs s @
                     [WARN ''UniDiff %s not found in dat/unidiff.xml.'' [ArgS (Some nm)]]\<rparr> \<and>
              diff_stack s' = diff_stack s \<and> diff_nstack s' = diff_nstack s"
  using assms diff_find_absent [OF assms(4)]
  by (simp add: diff_apply_def Let_def diff_apply_loop_find diff_nstack_def)

theorem diff_apply_not_found_witness:
  "\<exists>s'. diff_apply (univ_env doc_colony UniHunk_zero) (Some ''does-not-exist'') (state0 sol) =
          Inr (- 1, s') \<and>
        s' = (state0 sol)\<lparr>msgs := msgs (state0 sol) @
               [WARN ''UniDiff %s not found in dat/unidiff.xml.''
                  [ArgS (Some ''does-not-exist'')]]\<rparr> \<and>
        diff_stack s' = diff_stack (state0 sol) \<and> diff_nstack s' = diff_nstack (state0 sol)"
  using diff_apply_not_found
    [of "state0 sol" "''does-not-exist''" "univ_env doc_colony UniHunk_zero"]
  by (simp add: diff_isApplied_def diff_get_def state0_def univ_env_def doc_colony_defs)

text \<open>
  C8. With a definitions document that has the root \<^verbatim>\<open>unidiffs\<close> and nothing in it,
  \<open>diff_apply\<close> returns with the buffer and the parsed document still allocated.
\<close>

theorem diff_apply_no_elements_leaks:
  "diff_apply (univ_env doc_no_elements UniHunk_zero) (Some ''colony'') (state0 sol) =
     Inr (0, (state0 sol)\<lparr>bufs_held := 1, docs_held := 1,
               msgs := [ERR ''Malformed unidiff file: does not contain elements'' []]\<rparr>)"
  by (simp add: diff_apply_def diff_isApplied_def diff_get_def state0_def univ_env_def
        doc_no_elements_def)

subsection \<open>Claims about the hunks and their reversal\<close>

text \<open>
  C1. The diff \<^verbatim>\<open>flip\<close> adds planet A to Sol and removes it again; both hunks are
  accepted. Removing the diff replays "remove A" (rejected: A is not there) and then
  "add A": Sol ends with planet A, which it did not have before the apply.
\<close>

theorem diff_flip_not_restored:
  "diff_apply (univ_env doc_colony UniHunk_zero) (Some ''flip'') (state0 sol) = Inr (0, state_flip) \<and>
   failed (hd (diff_stack state_flip)) = [] \<and>
   diff_remove (univ_env doc_colony UniHunk_zero) (Some ''flip'') state_flip =
     Inr ((state0 sol)\<lparr>world := sol_A\<rparr>) \<and>
   planets (the (sol_A ''Sol'')) \<noteq> planets (the (sol ''Sol''))"
proof -
  have ap: "diff_apply (univ_env doc_colony UniHunk_zero) (Some ''flip'') (state0 sol) =
              Inr (0, state_flip)"
    by (simp add: diff_apply_def diff_isApplied_def diff_get_def Let_def univ_env_def
          doc_colony_defs diff_patch_def diff_newDiff_def diff_patch_node_def
          diff_patch_base_def diff_patch_cur_def
          diff_patch_hunk_def diff_patch_type_def diff_patch_file_def diff_patchHunk_def
          diff_hunkSuccess_def diff_hunkFailed_def strdup_def xml_get_def
          univ_system_get_def univ_addPlanet_def univ_rmPlanet_def UniHunk_zero_def
          UniDiff_zero_def diff_patch_debug_def state0_def state_flip_def sol_def
          hunk_add_A_def hunk_remove_A_def)
  have g: "diff_get state_flip (Some ''flip'') = Inr (Some 0)"
    by (simp add: diff_get_def state_flip_def)
  have rm: "diff_remove (univ_env doc_colony UniHunk_zero) (Some ''flip'') state_flip =
              Inr ((state0 sol)\<lparr>world := sol_A\<rparr>)"
    unfolding diff_remove_at [OF g]
    by (simp add: state_flip_def revert_step_def spec_invert_def hunk_add_A_def
          hunk_remove_A_def diff_patchHunk_def univ_env_def univ_system_get_def
          univ_addPlanet_def univ_rmPlanet_def state0_def sol_def sol_A_def)
  show ?thesis
    by (simp add: ap rm) (simp add: state_flip_def sol_def sol_A_def)
qed

text \<open>
  C1, as the code has it, over the world of systems: when no hunk of the diff is
  rejected, no two of its hunks have the same target and payload (name the same item of
  the same system), and every item the diff adds is absent from its target system before
  the apply, then applying the diff and removing it gives back the world as it was
  before, and the stack as it was.
\<close>

theorem diff_apply_remove_restores:
  fixes s :: "universe state"
  assumes "diff_isApplied s (Some nm) = Inr 0"
    and "node_name (unidiff_doc (univ_env doc h0)) = ''unidiffs''"
    and "diff_find (xmlChildrenNode (unidiff_doc (univ_env doc h0))) (Some nm) = Inr (Some node)"
    and "diff_patch_hunks (univ_env doc h0) node = Inr hs"
    and "route (univ_env doc h0) hs (world s, [], []) = (w', a, [])"
    and "distinct (map (\<lambda>h. (target_name (target h), hunk_u h)) hs)"
    and "\<forall>h \<in> set hs. hunk_adds h \<longrightarrow> \<not> hunk_item_present (world s) h"
  shows "\<exists>s' s''. diff_apply (univ_env doc h0) (Some nm) s = Inr (0, s') \<and>
           diff_stack s' = diff_stack s @ [\<lparr>name = Some nm, applied = hs, failed = []\<rparr>] \<and>
           diff_remove (univ_env doc h0) (Some nm) s' = Inr s'' \<and>
           world s'' = world s \<and> diff_stack s'' = diff_stack s"
proof -
  from univ_revert_restores [OF assms(5,6,7)] have
    r: "a = hs" "revert (univ_env doc h0) hs w' = world s" by simp_all
  have pr: "list_all hunk_printable []" by simp
  from diff_apply_found [OF assms(1-5) pr] obtain m where
    ap: "diff_apply (univ_env doc h0) (Some nm) s =
           Inr (0, s\<lparr>diff_stack := diff_stack s @ [\<lparr>name = Some nm, applied = a, failed = []\<rparr>],
                      world := w', msgs := m\<rparr>)"
    by blast
  let ?s' = "s\<lparr>diff_stack := diff_stack s @ [\<lparr>name = Some nm, applied = a, failed = []\<rparr>],
               world := w', msgs := m\<rparr>"
  have "\<exists>s''. diff_remove (univ_env doc h0) (Some nm) ?s' = Inr s'' \<and>
           world s'' = revert (univ_env doc h0)
                         (applied \<lparr>name = Some nm, applied = a, failed = []\<rparr>) (world ?s') \<and>
           diff_stack s'' = diff_stack s \<and>
           bufs_held s'' = bufs_held ?s' \<and> docs_held s'' = docs_held ?s'"
    by (rule diff_remove_last [OF assms(1)]) simp_all
  with ap r show ?thesis by auto
qed

theorem diff_apply_remove_restores_witness:
  "\<exists>s' s''. diff_apply (univ_env doc_grow UniHunk_zero) (Some ''grow'') (state0 sol) = Inr (0, s') \<and>
     diff_stack s' = diff_stack (state0 sol) @
       [\<lparr>name = Some ''grow'', applied = [hunk_mars, hunk_pirate], failed = []\<rparr>] \<and>
     diff_remove (univ_env doc_grow UniHunk_zero) (Some ''grow'') s' = Inr s'' \<and>
     world s'' = world (state0 sol) \<and> diff_stack s'' = diff_stack (state0 sol)"
proof -
  have 1: "diff_isApplied (state0 sol) (Some ''grow'') = Inr 0"
    by (simp add: diff_isApplied_def diff_get_def state0_def)
  have 2: "node_name (unidiff_doc (univ_env doc_grow UniHunk_zero)) = ''unidiffs''"
    by (simp add: univ_env_def doc_grow_def)
  have 3: "diff_find (xmlChildrenNode (unidiff_doc (univ_env doc_grow UniHunk_zero)))
             (Some ''grow'') = Inr (Some node_grow)"
    by (simp add: univ_env_def doc_grow_def node_grow_def)
  have 5: "route (univ_env doc_grow UniHunk_zero) [hunk_mars, hunk_pirate]
             (world (state0 sol), [], []) = (sol_colony, [hunk_mars, hunk_pirate], [])"
    using grow_route by (simp add: state0_def)
  have 6: "distinct (map (\<lambda>h. (target_name (target h), hunk_u h)) [hunk_mars, hunk_pirate])"
    by (simp add: hunk_mars_def hunk_pirate_def)
  have 7: "\<forall>h \<in> set [hunk_mars, hunk_pirate].
             hunk_adds h \<longrightarrow> \<not> hunk_item_present (world (state0 sol)) h"
    by (simp add: hunk_item_present_def hunk_action_def item_of_def has_at_def
          hunk_mars_def hunk_pirate_def state0_def sol_def)
  from diff_apply_remove_restores [OF 1 2 3 grow_hunks 5 6 7] show ?thesis .
qed

text \<open>
  C4. The diff \<^verbatim>\<open>raid\<close> adds the planet Mars to Sol, which is accepted, and a fleet that
  is not defined to a system that does not exist, which is rejected. The loops of
  \<open>diff_patch\<close> file the first hunk under \<open>applied\<close> and the second under \<open>failed\<close>. The
  debugging line for the failed fleet hunk then follows its fleet pointer, which is
  NULL: \<open>diff_apply\<close> does not return 0, it does not return.
\<close>

theorem diff_apply_failed_fleet_faults:
  "diff_patch_nodes (univ_env_fleets [''Pirate''] doc_raid UniHunk_zero) 0
     (xmlChildrenNode node_raid)
     (UniHunk_zero,
      (state0 sol)\<lparr>diff_stack := [\<lparr>name = Some ''raid'', applied = [], failed = []\<rparr>],
                   bufs_held := 1, docs_held := 1\<rparr>) =
     Inr (hunk_raiders,
          (state0 sol)\<lparr>diff_stack :=
                         [\<lparr>name = Some ''raid'', applied = [hunk_mars], failed = [hunk_raiders]\<rparr>],
                       world := sol_mars, bufs_held := 1, docs_held := 1\<rparr>) \<and>
   diff_patch_debug \<lparr>name = Some ''raid'', applied = [hunk_mars], failed = [hunk_raiders]\<rparr> =
     Inl NullDeref \<and>
   diff_apply (univ_env_fleets [''Pirate''] doc_raid UniHunk_zero) (Some ''raid'') (state0 sol) =
     Inl NullDeref"
  by (simp add: diff_apply_def diff_isApplied_def diff_get_def Let_def univ_env_fleets_def
        univ_env_def univ_fleet_get_def doc_raid_def node_raid_def diff_patch_def
        diff_newDiff_def diff_patch_node_def diff_patch_base_def diff_patch_cur_def
        diff_patch_hunk_def diff_patch_type_def diff_patch_file_def diff_patchHunk_def
        diff_hunkSuccess_def diff_hunkFailed_def strdup_def xml_get_def atoi_def atoi_str_50
        univ_system_get_def univ_addPlanet_def univ_addFleet_def UniHunk_zero_def
        UniDiff_zero_def diff_patch_debug_def diff_patch_debug_hunk_def
        diff_patch_debug_fleet_def state0_def sol_def sol_mars_def hunk_mars_def
        hunk_raiders_def)



text \<open>
  C9. The chance of a fleet hunk is not bounded: the element
  \<^verbatim>\<open><fleet name="Pirate" chance="150">add</fleet>\<close> gives a hunk whose chance is 150.
\<close>

theorem fleet_chance_150:
  "diff_patch_hunk (univ_env doc_colony UniHunk_zero) base_sol elem_pirates UniHunk_zero =
     Inr (Some \<lparr>target = \<lparr>target_type = HUNK_TARGET_SYSTEM, target_name = Some ''Sol''\<rparr>,
                hunk_type = HUNK_TYPE_FLEET_ADD,
                hunk_u = U_fleet \<lparr>fleet = Some ''Pirate'', chance = 150\<rparr>\<rparr>)
   \<and> sint (chance \<lparr>fleet = Some ''Pirate'', chance = 150\<rparr>) = 150
   \<and> \<not> (0 \<le> sint (chance \<lparr>fleet = Some ''Pirate'', chance = 150\<rparr>) \<and>
         sint (chance \<lparr>fleet = Some ''Pirate'', chance = 150\<rparr>) \<le> 100)"
  by (simp add: diff_patch_hunk_def diff_patch_type_def base_sol_def diff_patch_base_def
        elem_pirates_def UniHunk_zero_def strdup_def xml_get_def atoi_def atoi_str_150
        univ_env_def)

text \<open>
  C9, as the code has it: a hunk built from a fleet element has the fleet payload, whose
  fleet is what \<open>fleet_get\<close> gives for the attribute \<^verbatim>\<open>name\<close> and whose chance is the
  \<^verbatim>\<open>int\<close> that \<^verbatim>\<open>atoi\<close> returns for the attribute \<^verbatim>\<open>chance\<close>, stored as it is: it is the
  number written in the attribute whenever that number is in the range of \<^verbatim>\<open>int\<close>, and
  nothing compares it with 0 or 100.
\<close>

theorem fleet_hunk_chance:
  assumes "xml_isNode cur ''fleet''"
    and "diff_patch_hunk E base cur hunk = Inr (Some hunk')"
  shows "\<exists>str. xmlr_attr cur ''chance'' = Some str \<and>
           hunk_u hunk' =
             U_fleet \<lparr>fleet = fleet_get E (xmlr_attr cur ''name''), chance = atoi_str str\<rparr> \<and>
           (- 2147483648 \<le> atoi_val str \<and> atoi_val str \<le> 2147483647 \<longrightarrow>
              sint (atoi_str str) = atoi_val str)"
proof -
  from assms(1) have np: "\<not> xml_isNode cur ''planet''" by (cases cur) auto
  from assms(2) np assms(1) obtain str where
    s: "xmlr_attr cur ''chance'' = Some str"
       "hunk_u hunk' =
          U_fleet \<lparr>fleet = fleet_get E (xmlr_attr cur ''name''), chance = atoi_str str\<rparr>"
    by (auto simp: diff_patch_hunk_def diff_patch_type_def atoi_def
             split: sum.splits option.splits if_splits)
  with atoi_str_in_range [of str] show ?thesis by blast
qed

theorem fleet_hunk_chance_witness:
  "xmlr_attr elem_pirates ''chance'' = Some ''150'' \<and>
   hunk_u \<lparr>target = \<lparr>target_type = HUNK_TARGET_SYSTEM, target_name = Some ''Sol''\<rparr>,
           hunk_type = HUNK_TYPE_FLEET_ADD,
           hunk_u = U_fleet \<lparr>fleet = Some ''Pirate'', chance = 150\<rparr>\<rparr> =
     U_fleet \<lparr>fleet = fleet_get (univ_env doc_colony UniHunk_zero)
                        (xmlr_attr elem_pirates ''name''),
             chance = atoi_str ''150''\<rparr> \<and>
   atoi_val ''150'' = 150 \<and> sint (atoi_str ''150'') = atoi_val ''150''"
proof -
  have 1: "xml_isNode elem_pirates ''fleet''" by (simp add: elem_pirates_def)
  have 2: "diff_patch_hunk (univ_env doc_colony UniHunk_zero) base_sol elem_pirates UniHunk_zero =
     Inr (Some \<lparr>target = \<lparr>target_type = HUNK_TARGET_SYSTEM, target_name = Some ''Sol''\<rparr>,
                hunk_type = HUNK_TYPE_FLEET_ADD,
                hunk_u = U_fleet \<lparr>fleet = Some ''Pirate'', chance = 150\<rparr>\<rparr>)"
    by (simp add: diff_patch_hunk_def diff_patch_type_def base_sol_def diff_patch_base_def
        elem_pirates_def UniHunk_zero_def strdup_def xml_get_def atoi_def atoi_str_150
        univ_env_def)
  have 3: "atoi_val ''150'' = 150" by (simp add: atoi_val_def isspace_def isdigit_def)
  from fleet_hunk_chance [OF 1 2] 3 show ?thesis
    by (auto simp: elem_pirates_def)
qed



subsection \<open>Claim about saving and loading\<close>



end
